theory Spec2Isabelle
  imports Main
begin

text \<open>
  A model of \<^verbatim>\<open>app.py\<close>, the Flask application that downloads YouTube videos and
  audio through yt-dlp: the URL validator and normaliser with its three regular
  expressions, the derivation of a file name from the metadata, the download handler
  with the cookie file and the pending-download tokens, and the authentication gate.
  The definitions come first, the proofs after them.
\<close>

section \<open>Python strings\<close>

text \<open>
  A Python \<^verbatim>\<open>str\<close> is a sequence of Unicode code points, so it is modelled as a list
  of natural numbers (the code points), not as a list of 8-bit characters: the source
  handles U+FF01 and other code points above 255.  \<open>ustr\<close> turns an ASCII literal
  into such a string.
\<close>

type_synonym str = "nat list"

definition ustr :: "string \<Rightarrow> str" where
  "ustr s = map of_char s"

text \<open>
  \<^verbatim>\<open>str.isspace\<close> for one code point, which is also what \<^verbatim>\<open>\s\<close> matches in a
  \<^verbatim>\<open>str\<close> pattern: U+0009..U+000D, U+001C..U+0020, U+0085, U+00A0, U+1680,
  U+2000..U+200A, U+2028, U+2029, U+202F, U+205F, U+3000.
\<close>

definition isspace :: "nat \<Rightarrow> bool" where
  "isspace c \<longleftrightarrow>
     (9 \<le> c \<and> c \<le> 13) \<or> (28 \<le> c \<and> c \<le> 32) \<or> c = 133 \<or> c = 160 \<or> c = 5760 \<or>
     (8192 \<le> c \<and> c \<le> 8202) \<or> c = 8232 \<or> c = 8233 \<or> c = 8239 \<or> c = 8287 \<or>
     c = 12288"

text \<open>\<^verbatim>\<open>s.strip()\<close>: drop the whitespace at both ends.\<close>

definition strip :: "str \<Rightarrow> str" where
  "strip s = rev (dropWhile isspace (rev (dropWhile isspace s)))"

text \<open>
  Python's \<^verbatim>\<open>a or b\<close> on values of type \<^verbatim>\<open>str | None\<close>: \<open>a\<close> when it is truthy
  (a non-empty string), else \<open>b\<close>.
\<close>

definition py_or :: "str option \<Rightarrow> str option \<Rightarrow> str option" where
  "py_or a b = (case a of None \<Rightarrow> b | Some x \<Rightarrow> if x = [] then b else Some x)"

text \<open>Truthiness of a \<^verbatim>\<open>str | None\<close> value.\<close>

definition truthy :: "str option \<Rightarrow> bool" where
  "truthy a = (case a of None \<Rightarrow> False | Some x \<Rightarrow> x \<noteq> [])"

text \<open>What an f-string field prints for a \<^verbatim>\<open>str | None\<close> value.\<close>

definition py_format :: "str option \<Rightarrow> str" where
  "py_format a = (case a of None \<Rightarrow> ustr ''None'' | Some x \<Rightarrow> x)"

section \<open>The regular expressions of the URL validator\<close>

text \<open>
  The three patterns are compiled with \<^verbatim>\<open>re.I\<close>.  On a \<^verbatim>\<open>str\<close> pattern this is
  Unicode case-insensitive matching: a lower-case ASCII letter of the pattern matches
  itself and its upper-case form, and the library documents four further code points
  that match ASCII letters: U+0130 and U+0131 match \<^verbatim>\<open>i\<close>, U+017F matches \<^verbatim>\<open>s\<close>,
  U+212A matches \<^verbatim>\<open>k\<close>.  Every letter in the source's patterns is lower-case.
  \<open>lit_ci l c\<close>: the subject's code point \<open>c\<close> matches the pattern's literal \<open>l\<close>.
\<close>

definition lit_ci :: "nat \<Rightarrow> nat \<Rightarrow> bool" where
  "lit_ci l c \<longleftrightarrow>
     c = l \<or> (97 \<le> l \<and> l \<le> 122 \<and> c + 32 = l) \<or>
     (l = 105 \<and> (c = 304 \<or> c = 305)) \<or> (l = 115 \<and> c = 383) \<or> (l = 107 \<and> c = 8490)"

text \<open>A run of literals at the start of the subject; the result is what follows it.\<close>

fun lits :: "str \<Rightarrow> str \<Rightarrow> str option" where
  "lits [] s = Some s"
| "lits (l # ls) [] = None"
| "lits (l # ls) (c # cs) = (if lit_ci l c then lits ls cs else None)"

text \<open>The class \<^verbatim>\<open>[a-zA-Z0-9_-]\<close> under \<^verbatim>\<open>re.I\<close>.\<close>

definition id_char :: "nat \<Rightarrow> bool" where
  "id_char c \<longleftrightarrow>
     (97 \<le> c \<and> c \<le> 122) \<or> (65 \<le> c \<and> c \<le> 90) \<or> (48 \<le> c \<and> c \<le> 57) \<or>
     c = 95 \<or> c = 45 \<or> c = 304 \<or> c = 305 \<or> c = 383 \<or> c = 8490"

text \<open>The group \<^verbatim>\<open>([a-zA-Z0-9_-]{11})\<close>: the captured text and what follows it.\<close>

definition id11 :: "str \<Rightarrow> (str \<times> str) option" where
  "id11 s = (if 11 \<le> length s \<and> list_all id_char (take 11 s)
             then Some (take 11 s, drop 11 s) else None)"

text \<open>
  \<^verbatim>\<open>\w\<close> on a \<^verbatim>\<open>str\<close> pattern is \<^verbatim>\<open>isalnum\<close> or the underscore.  For ASCII this is
  written out; for the other code points it is the interpreter's Unicode table, which
  is no part of the repository and is taken as the parameter \<open>W\<close>.
\<close>

definition is_word :: "(nat \<Rightarrow> bool) \<Rightarrow> nat \<Rightarrow> bool" where
  "is_word W c =
     (if c < 128
      then (97 \<le> c \<and> c \<le> 122) \<or> (65 \<le> c \<and> c \<le> 90) \<or> (48 \<le> c \<and> c \<le> 57) \<or> c = 95
      else W c)"

text \<open>
  \<^verbatim>\<open>\b\<close> between the code point before the position (if any) and the rest of the
  subject: exactly one side is a word character.
\<close>

definition word_boundary :: "(nat \<Rightarrow> bool) \<Rightarrow> nat option \<Rightarrow> str \<Rightarrow> bool" where
  "word_boundary W prev s =
     ((case prev of None \<Rightarrow> False | Some p \<Rightarrow> is_word W p) \<noteq>
      (case s of [] \<Rightarrow> False | c # _ \<Rightarrow> is_word W c))"

text \<open>
  Greedy \<^verbatim>\<open>.*\<close> followed by the rest \<open>k\<close> of the pattern.  The dot matches every code
  point but the newline; the longest run is tried first and the matcher backs off one
  code point at a time.  \<open>p\<close> is the code point before the current position.
\<close>

fun dotstar :: "(nat \<Rightarrow> str \<Rightarrow> 'a option) \<Rightarrow> nat \<Rightarrow> str \<Rightarrow> 'a option" where
  "dotstar k p [] = k p []"
| "dotstar k p (c # cs) =
     (if c = 10 then k p (c # cs)
      else (case dotstar k c cs of Some r \<Rightarrow> Some r | None \<Rightarrow> k p (c # cs)))"

text \<open>
  \<^verbatim>\<open>pattern.search\<close>: the match at the leftmost position that has one.  The three
  patterns begin with a literal, so a match at a position does not look at what is
  before it.
\<close>

fun re_search :: "(str \<Rightarrow> 'a option) \<Rightarrow> str \<Rightarrow> 'a option" where
  "re_search at [] = at []"
| "re_search at (c # cs) = (case at (c # cs) of Some m \<Rightarrow> Some m | None \<Rightarrow> re_search at cs)"

text \<open>\<^verbatim>\<open>\bv=([a-zA-Z0-9_-]{11})\<close> after the code point \<open>p\<close>.\<close>

definition v_id :: "(nat \<Rightarrow> bool) \<Rightarrow> nat \<Rightarrow> str \<Rightarrow> str option" where
  "v_id W p s =
     (if word_boundary W (Some p) s
      then (case lits (ustr ''v='') s of None \<Rightarrow> None | Some r \<Rightarrow> map_option fst (id11 r))
      else None)"

text \<open>
  \<open>YT_WATCH_RE\<close> has three alternatives, tried in order, with one group each.  A match
  is the triple of its groups.  The code point before \<^verbatim>\<open>.*\<close> is the \<^verbatim>\<open>?\<close> (63) that
  the literal has just matched.
\<close>

type_synonym match3 = "str option \<times> str option \<times> str option"

definition YT_WATCH_RE_at :: "(nat \<Rightarrow> bool) \<Rightarrow> str \<Rightarrow> match3 option" where
  "YT_WATCH_RE_at W s =
     (case (case lits (ustr ''youtube.com/watch?'') s of
              None \<Rightarrow> None | Some r \<Rightarrow> dotstar (v_id W) 63 r) of
        Some g \<Rightarrow> Some (Some g, None, None)
      | None \<Rightarrow>
     (case (case lits (ustr ''youtu.be/'') s of
              None \<Rightarrow> None | Some r \<Rightarrow> map_option fst (id11 r)) of
        Some g \<Rightarrow> Some (None, Some g, None)
      | None \<Rightarrow>
     (case (case lits (ustr ''youtube.com/shorts/'') s of
              None \<Rightarrow> None | Some r \<Rightarrow> map_option fst (id11 r)) of
        Some g \<Rightarrow> Some (None, None, Some g)
      | None \<Rightarrow> None)))"

definition YT_WATCH_RE_search :: "(nat \<Rightarrow> bool) \<Rightarrow> str \<Rightarrow> match3 option" where
  "YT_WATCH_RE_search W s = re_search (YT_WATCH_RE_at W) s"

text \<open>\<^verbatim>\<open>\blist=\<close> after the code point \<open>p\<close>.\<close>

definition list_eq :: "(nat \<Rightarrow> bool) \<Rightarrow> nat \<Rightarrow> str \<Rightarrow> unit option" where
  "list_eq W p s =
     (if word_boundary W (Some p) s
      then map_option (\<lambda>_. ()) (lits (ustr ''list='') s)
      else None)"

definition YT_PLAYLIST_RE_at :: "(nat \<Rightarrow> bool) \<Rightarrow> str \<Rightarrow> unit option" where
  "YT_PLAYLIST_RE_at W s =
     (case lits (ustr ''youtube.com/playlist?'') s of
        None \<Rightarrow> None | Some r \<Rightarrow> dotstar (list_eq W) 63 r)"

definition YT_PLAYLIST_RE_search :: "(nat \<Rightarrow> bool) \<Rightarrow> str \<Rightarrow> unit option" where
  "YT_PLAYLIST_RE_search W s = re_search (YT_PLAYLIST_RE_at W) s"

definition YT_VALID_RE_at :: "str \<Rightarrow> unit option" where
  "YT_VALID_RE_at s =
     (case (case lits (ustr ''youtube.com/'') s of
              None \<Rightarrow> None
            | Some r \<Rightarrow>
                (case lits (ustr ''watch?'') r of
                   Some _ \<Rightarrow> Some ()
                 | None \<Rightarrow> map_option (\<lambda>_. ()) (lits (ustr ''shorts/'') r))) of
        Some u \<Rightarrow> Some u
      | None \<Rightarrow>
     (case lits (ustr ''youtu.be/'') s of
        Some _ \<Rightarrow> Some ()
      | None \<Rightarrow> map_option (\<lambda>_. ()) (lits (ustr ''youtube.com/playlist?'') s)))"

definition YT_VALID_RE_search :: "str \<Rightarrow> unit option" where
  "YT_VALID_RE_search s = re_search YT_VALID_RE_at s"

section \<open>URL validation and normalisation\<close>

text \<open>
  The source's names begin with an underscore, which an Isabelle name cannot; the
  definitions carry the names without it.
\<close>

definition normalize_youtube_url :: "(nat \<Rightarrow> bool) \<Rightarrow> str \<Rightarrow> str option" where
  "normalize_youtube_url W url =
     (if url = [] \<or> strip url = [] then None
      else let url = strip url in
        if YT_PLAYLIST_RE_search W url \<noteq> None then None
        else (case YT_WATCH_RE_search W url of
                Some (g1, g2, g3) \<Rightarrow>
                  (let video_id = py_or (py_or g1 g2) g3
                   in Some (ustr ''https://www.youtube.com/watch?v='' @ py_format video_id))
              | None \<Rightarrow> Some url))"

definition is_playlist_url :: "(nat \<Rightarrow> bool) \<Rightarrow> str \<Rightarrow> bool" where
  "is_playlist_url W url =
     (if url = [] \<or> strip url = [] then False
      else YT_PLAYLIST_RE_search W (strip url) \<noteq> None)"

definition is_youtube_url :: "str \<Rightarrow> bool" where
  "is_youtube_url url =
     (if url = [] \<or> strip url = [] then False
      else YT_VALID_RE_search (strip url) \<noteq> None)"

text \<open>
  \<open>prepare_url\<close> returns the pair \<^verbatim>\<open>(url_to_use, error_message)\<close>.  Its argument is a
  \<^verbatim>\<open>str\<close>; \<^verbatim>\<open>url or ""\<close> leaves a string as it is.
\<close>

definition prepare_url :: "(nat \<Rightarrow> bool) \<Rightarrow> str \<Rightarrow> str option \<times> str option" where
  "prepare_url W url0 =
     (let url = strip url0 in
      if url = [] then (None, Some (ustr ''Please enter a URL.''))
      else if \<not> is_youtube_url url then (None, Some (ustr ''Please enter a valid YouTube URL.''))
      else if is_playlist_url W url then (Some url, None)
      else (let normalized = normalize_youtube_url W url
            in (if truthy normalized then normalized else Some url, None)))"

definition video_id_from_url :: "(nat \<Rightarrow> bool) \<Rightarrow> str \<Rightarrow> str option" where
  "video_id_from_url W url =
     (if url = [] then None
      else (case YT_WATCH_RE_search W (strip url) of
              Some (g1, g2, g3) \<Rightarrow> py_or (py_or g1 g2) g3
            | None \<Rightarrow> None))"

section \<open>Deriving a file name from the metadata\<close>

text \<open>
  The metadata record of the extraction library is a Python \<^verbatim>\<open>dict\<close>; the function
  reads the keys \<^verbatim>\<open>id\<close>, \<^verbatim>\<open>fulltitle\<close> and \<^verbatim>\<open>title\<close>, whose values are strings
  or \<^verbatim>\<open>None\<close>.  A dict is the list of its items (each key once); it is falsy when
  it is empty.  \<open>dict_get\<close> is \<^verbatim>\<open>d.get(k)\<close>.
\<close>

type_synonym info = "(string \<times> str option) list"

definition dict_get :: "info \<Rightarrow> string \<Rightarrow> str option" where
  "dict_get d k = (case map_of d k of None \<Rightarrow> None | Some v \<Rightarrow> v)"

definition info_truthy :: "info option \<Rightarrow> bool" where
  "info_truthy i = (case i of None \<Rightarrow> False | Some d \<Rightarrow> d \<noteq> [])"

text \<open>\<^verbatim>\<open>s.replace(c, new)\<close> for a pattern \<open>c\<close> of one code point.\<close>

definition replace1 :: "nat \<Rightarrow> str \<Rightarrow> str \<Rightarrow> str" where
  "replace1 c new s = concat (map (\<lambda>x. if x = c then new else [x]) s)"

text \<open>\<^verbatim>\<open>re.sub(r"\s+", " ", s)\<close>: every maximal run of whitespace becomes one space.\<close>

function collapse_ws :: "str \<Rightarrow> str" where
  "collapse_ws [] = []"
| "collapse_ws (c # cs) =
     (if isspace c then 32 # collapse_ws (dropWhile isspace cs) else c # collapse_ws cs)"
  by pat_completeness auto
termination
  by (relation "measure length") (auto simp: less_Suc_eq_le length_dropWhile_le)

text \<open>The class \<^verbatim>\<open>[<>:"/\\|?*\x00-\x1f]\<close>, whose members the second substitution deletes.\<close>

definition illegal_char :: "nat \<Rightarrow> bool" where
  "illegal_char c \<longleftrightarrow>
     c = 60 \<or> c = 62 \<or> c = 58 \<or> c = 34 \<or> c = 47 \<or> c = 92 \<or> c = 124 \<or> c = 63 \<or> c = 42 \<or>
     c \<le> 31"

text \<open>\<^verbatim>\<open>f"{a}.{ext}"\<close>\<close>

definition dot_ext :: "str \<Rightarrow> str \<Rightarrow> str" where
  "dot_ext a ext = a @ [46] @ ext"

definition title_for_filename :: "info option \<Rightarrow> str \<Rightarrow> str option \<Rightarrow> str" where
  "title_for_filename info ext url_fallback_id =
     (let video_id = url_fallback_id;
          video_id = (if \<not> truthy video_id \<or> length (py_format video_id) < 5
                      then (if info_truthy info then dict_get (the info) ''id'' else None)
                      else video_id);
          video_id = (if \<not> truthy video_id \<or> strip (py_format video_id) \<in> {ustr ''!'', []} \<or>
                         length (py_format video_id) < 5
                      then ustr ''video'' else py_format video_id);
          video_id = strip video_id
      in if \<not> info_truthy info then dot_ext video_id ext
         else
          (let d = the info;
               raw = strip (py_format (py_or (py_or (dict_get d ''fulltitle'') (dict_get d ''title''))
                                        (Some [])));
               raw = replace1 8252 [] (replace1 451 [] (replace1 65281 [] (replace1 33 [] raw)));
               raw = strip (collapse_ws raw)
           in if raw = [] \<or> raw = ustr ''NA'' \<or> length raw \<le> 1 then dot_ext video_id ext
              else
               (let safe = filter (\<lambda>c. \<not> illegal_char c) raw;
                    safe = strip (collapse_ws safe);
                    safe = (if safe \<noteq> [] then take 200 safe else [])
                in if safe = [] \<or> safe \<in> {ustr ''!'', [65281], ustr ''NA''} then dot_ext video_id ext
                   else
                    (let name = dot_ext safe ext
                     in if take 1 name = ustr ''!'' \<or> take 1 name = [65281]
                        then dot_ext video_id ext else name))))"

section \<open>The download request\<close>

text \<open>
  The file system holds regular files at paths.  The paths the handlers touch are the
  persisted cookie file, the temporary files and directories that \<^verbatim>\<open>tempfile\<close> makes
  (numbered by a counter of fresh names), and the entries of such a directory.
\<close>

datatype path = PERSISTENT_COOKIE_PATH | TmpFile nat | OutFile nat str

type_synonym bytes = "nat list"

text \<open>The options object passed to \<^verbatim>\<open>YoutubeDL\<close>; an absent key is \<open>None\<close>.\<close>

record ydl_opts =
  outtmpl :: nat
  quiet :: bool
  no_warnings :: bool
  cookiefile :: "path option"
  playlist_items :: "string option"
  format :: string
  postprocessors :: "(string \<times> string \<times> string) list"
  merge_output_format :: "string option"

text \<open>
  The process state: the regular files, the dictionary \<open>_PENDING_DOWNLOADS\<close>, the
  counter of fresh temporary names, and the log of the invocations of the extraction
  library (each with its options and URL, the newest first).
\<close>

record state =
  files :: "path \<rightharpoonup> bytes"
  pending :: "str \<rightharpoonup> (path \<times> str)"
  fresh :: nat
  calls :: "(ydl_opts \<times> str) list"

text \<open>
  The extraction library is outside the repository.  One invocation either raises or
  returns a metadata record (or \<^verbatim>\<open>None\<close>), and leaves entries in the output
  directory, listed in the order \<^verbatim>\<open>iterdir\<close> yields them; an entry is a regular
  file with its contents or something else (\<open>None\<close>).  The library is also handed the
  path of a cookie file (\<^verbatim>\<open>opts["cookiefile"]\<close>), which it may rewrite, whether or not
  the extraction succeeds: \<open>cookie_rewrite\<close> is what it writes there, \<open>None\<close> when it
  leaves the file alone.  The model gives the library no other effect on the files.
\<close>

datatype extracted = Raised | Returned "info option"

record outcome =
  result :: extracted
  entries :: "(str \<times> bytes option) list"
  cookie_rewrite :: "bytes option"

text \<open>
  What \<^verbatim>\<open>os.makedirs\<close> followed by \<^verbatim>\<open>shutil.copy2\<close> does: the copy is made, or
  \<^verbatim>\<open>OSError\<close> is raised with the target untouched, or it is raised part-way, with
  some bytes left in the target.
\<close>

datatype copy_outcome = Copy_ok | Copy_raised_untouched | Copy_raised_partial bytes

text \<open>
  What the surroundings decide during one request: the behaviour of the extraction
  library, how the copy into the persistent location ends, whether \<^verbatim>\<open>os.unlink\<close> of
  the uploaded copy raises \<^verbatim>\<open>OSError\<close>, and the value of
  \<^verbatim>\<open>secrets.token_urlsafe(16)\<close>.
\<close>

record env =
  extract_info :: "ydl_opts \<Rightarrow> str \<Rightarrow> outcome"
  copy_result :: copy_outcome
  unlink_fails :: bool
  token :: str

text \<open>
  The request: the matched endpoint, the method, the full URL, the session's
  \<^verbatim>\<open>authenticated\<close> entry (as its truth value), the root URL of the application, the
  form field \<^verbatim>\<open>url\<close>, the uploaded file field \<^verbatim>\<open>cookies\<close> (file name and contents),
  and the field \<^verbatim>\<open>return_url\<close> of the form and of the query string.
\<close>

record request =
  endpoint :: "string option"
  meth :: string
  url :: str
  authenticated :: bool
  url_root :: str
  form_url :: "str option"
  files_cookies :: "(str \<times> bytes) option"
  form_return_url :: "str option"
  args_return_url :: "str option"

text \<open>
  Responses: a JSON object with a status, a redirect to \<^verbatim>\<open>url_for(endpoint, **values)\<close>,
  or a streamed file with its \<^verbatim>\<open>Content-Disposition\<close> and \<^verbatim>\<open>Content-Length\<close>
  headers (the body generator runs later, when the server sends the response).
\<close>

datatype response =
    Json nat "(string \<times> str) list"
  | Redirect string "(string \<times> str) list"
  | Stream path str nat

definition isfile :: "state \<Rightarrow> path option \<Rightarrow> bool" where
  "isfile s p = (case p of None \<Rightarrow> False | Some q \<Rightarrow> files s q \<noteq> None)"

fun write_entries :: "nat \<Rightarrow> (str \<times> bytes option) list \<Rightarrow> (path \<rightharpoonup> bytes) \<Rightarrow> (path \<rightharpoonup> bytes)" where
  "write_entries d [] fs = fs"
| "write_entries d ((n, c) # es) fs = write_entries d es (fs(OutFile d n := c))"

definition build_opts :: "(nat \<Rightarrow> bool) \<Rightarrow> state \<Rightarrow> nat \<Rightarrow> str \<Rightarrow> bool \<Rightarrow> path option \<Rightarrow> ydl_opts" where
  "build_opts W s out_dir u as_audio cookiefile_path =
     \<lparr> outtmpl = out_dir, quiet = True, no_warnings = True,
       cookiefile = (if isfile s cookiefile_path then cookiefile_path else None),
       playlist_items = (if is_playlist_url W u then Some ''1'' else None),
       format = (if as_audio then ''bestaudio/best''
                 else ''bestvideo[ext=mp4]+bestaudio[ext=m4a]/best[ext=mp4]/best''),
       postprocessors = (if as_audio then [(''FFmpegExtractAudio'', ''mp3'', ''192'')] else []),
       merge_output_format = (if as_audio then None else Some ''mp4'') \<rparr>"

text \<open>
  \<open>download\<close> returns the pair \<^verbatim>\<open>(path, info)\<close> and the new state.  Every exception
  of the library is caught and gives \<^verbatim>\<open>(None, None)\<close>.
\<close>

definition download ::
  "(nat \<Rightarrow> bool) \<Rightarrow> env \<Rightarrow> str option \<Rightarrow> bool \<Rightarrow> path option \<Rightarrow> state \<Rightarrow>
   (path option \<times> info option) \<times> state" where
  "download W e url0 as_audio cookiefile_path s =
     (if \<not> truthy url0 \<or> strip (py_format url0) = [] then ((None, None), s)
      else
       (let u = py_format url0;
            out_dir = fresh s;
            s1 = s\<lparr>fresh := Suc (fresh s)\<rparr>;
            opts = build_opts W s1 out_dir u as_audio cookiefile_path;
            oc = extract_info e opts u;
            written = write_entries out_dir (entries oc) (files s1);
            s2 = s1\<lparr>calls := (opts, u) # calls s1,
                    files := (case (cookiefile opts, cookie_rewrite oc) of
                                (Some c, Some b) \<Rightarrow> written(c \<mapsto> b)
                              | _ \<Rightarrow> written)\<rparr>
        in case result oc of
             Raised \<Rightarrow> ((None, None), s2)
           | Returned info \<Rightarrow>
               if \<not> info_truthy info then ((None, None), s2)
               else (case entries oc of
                       [] \<Rightarrow> ((None, None), s2)
                     | (n, _) # _ \<Rightarrow> ((Some (OutFile out_dir n), info), s2))))"

text \<open>\<^verbatim>\<open>f'attachment; filename="{safe_name}"'\<close> with the two replacements before it.\<close>

definition content_disposition :: "str \<Rightarrow> str" where
  "content_disposition download_name =
     (let safe_name = replace1 34 [92, 34] (replace1 92 [92, 92] download_name)
      in ustr ''attachment; filename='' @ [34] @ safe_name @ [34])"

text \<open>
  \<^verbatim>\<open>os.path.getsize\<close>; the handlers call it only on a path that \<open>isfile\<close> has just
  accepted, so the value for a missing file is never used.
\<close>

definition getsize :: "state \<Rightarrow> path \<Rightarrow> nat" where
  "getsize s p = (case files s p of None \<Rightarrow> 0 | Some b \<Rightarrow> length b)"

text \<open>\<^verbatim>\<open>request.form.get("url") or ""\<close>\<close>

definition url_field :: "request \<Rightarrow> str" where
  "url_field req = py_format (py_or (form_url req) (Some []))"

text \<open>
  The contents of the uploaded \<^verbatim>\<open>cookies\<close> field, when the field is there and its file
  name is not empty (\<^verbatim>\<open>if f and f.filename\<close>).
\<close>

definition uploaded_cookies :: "request \<Rightarrow> bytes option" where
  "uploaded_cookies req =
     (case files_cookies req of
        None \<Rightarrow> None
      | Some (filename, b) \<Rightarrow> if filename \<noteq> [] then Some b else None)"

text \<open>The upload is saved to a fresh temporary file; the result is \<open>uploaded_cookie_path\<close>.\<close>

definition save_upload :: "request \<Rightarrow> state \<Rightarrow> path option \<times> state" where
  "save_upload req s =
     (case uploaded_cookies req of
        None \<Rightarrow> (None, s)
      | Some b \<Rightarrow>
          (Some (TmpFile (fresh s)),
           s\<lparr>files := (files s)(TmpFile (fresh s) \<mapsto> b), fresh := Suc (fresh s)\<rparr>))"

text \<open>
  After the download: when it gave a file and the uploaded copy is there, the copy is
  written over the persisted cookie file; an \<^verbatim>\<open>OSError\<close> of that step is swallowed,
  and the target is then as the failed step left it.
\<close>

definition persist_cookie :: "env \<Rightarrow> path option \<Rightarrow> path option \<Rightarrow> state \<Rightarrow> state" where
  "persist_cookie e path uploaded_cookie_path s =
     (case uploaded_cookie_path of
        None \<Rightarrow> s
      | Some q \<Rightarrow>
          if isfile s path \<and> isfile s (Some q)
          then (case copy_result e of
                  Copy_ok \<Rightarrow> s\<lparr>files := (files s)(PERSISTENT_COOKIE_PATH := files s q)\<rparr>
                | Copy_raised_untouched \<Rightarrow> s
                | Copy_raised_partial c \<Rightarrow>
                    s\<lparr>files := (files s)(PERSISTENT_COOKIE_PATH \<mapsto> c)\<rparr>)
          else s)"

text \<open>The \<^verbatim>\<open>finally\<close> block: the uploaded copy is unlinked; an \<^verbatim>\<open>OSError\<close> is swallowed.\<close>

definition unlink_upload :: "env \<Rightarrow> path option \<Rightarrow> state \<Rightarrow> state" where
  "unlink_upload e uploaded_cookie_path s =
     (case uploaded_cookie_path of
        None \<Rightarrow> s
      | Some q \<Rightarrow>
          if isfile s (Some q) \<and> \<not> unlink_fails e
          then s\<lparr>files := (files s)(q := None)\<rparr>
          else s)"

text \<open>The answer for a downloaded file: a token and a JSON body, or the stream.\<close>

definition deliver :: "env \<Rightarrow> bool \<Rightarrow> request \<Rightarrow> path \<Rightarrow> state \<Rightarrow> response \<times> state" where
  "deliver e as_audio req p s =
     (let download_name = (if as_audio then ustr ''audio.mp3'' else ustr ''video.mp4'');
          return_url = py_or (form_return_url req) (args_return_url req)
      in if truthy return_url \<and>
            strip (py_format return_url) \<in> {ustr ''1'', ustr ''true'', ustr ''yes''}
         then (Json 200 [(''download_url'', url_root req @ ustr ''download/'' @ token e),
                         (''filename'', download_name)],
               s\<lparr>pending := (pending s)(token e \<mapsto> (p, download_name))\<rparr>)
         else (Stream p (content_disposition download_name) (getsize s p), s))"

definition download_failed :: response where
  "download_failed = Json 400 [(''error'', ustr ''Download failed. Check the URL and try again.'')]"

definition handle_download ::
  "(nat \<Rightarrow> bool) \<Rightarrow> env \<Rightarrow> bool \<Rightarrow> request \<Rightarrow> state \<Rightarrow> response \<times> state" where
  "handle_download W e as_audio req s =
     (case prepare_url W (url_field req) of (url1, err) \<Rightarrow>
      if truthy err then (Json 400 [(''error'', py_format err)], s)
      else
       (case save_upload req s of (uploaded_cookie_path, s1) \<Rightarrow>
        let cookiefile_path =
              (if uploaded_cookie_path = None \<and> isfile s1 (Some PERSISTENT_COOKIE_PATH)
               then Some PERSISTENT_COOKIE_PATH else uploaded_cookie_path)
        in case download W e url1 as_audio cookiefile_path s1 of ((path, info), s2) \<Rightarrow>
           let s3 = persist_cookie e path uploaded_cookie_path s2;
               s4 = unlink_upload e uploaded_cookie_path s3
           in case path of
                None \<Rightarrow> (download_failed, s4)
              | Some p \<Rightarrow>
                  if \<not> isfile s4 (Some p) then (download_failed, s4)
                  else deliver e as_audio req p s4))"

text \<open>A response of the handler that reports a failure (status 400).\<close>

definition is_error :: "response \<Rightarrow> bool" where
  "is_error r = (case r of Json st _ \<Rightarrow> st = 400 | _ \<Rightarrow> False)"

text \<open>
  The statements of the handler after the call of \<open>download\<close>, as a function of the
  path of the uploaded copy, of the path that \<open>download\<close> returned and of the state it
  left.
\<close>

definition finish ::
  "env \<Rightarrow> bool \<Rightarrow> request \<Rightarrow> path option \<Rightarrow> path option \<Rightarrow> state \<Rightarrow> response \<times> state" where
  "finish e as_audio req uploaded_cookie_path path s2 =
     (let s4 = unlink_upload e uploaded_cookie_path (persist_cookie e path uploaded_cookie_path s2)
      in case path of
           None \<Rightarrow> (download_failed, s4)
         | Some p \<Rightarrow>
             if \<not> isfile s4 (Some p) then (download_failed, s4)
             else deliver e as_audio req p s4)"

text \<open>
  \<open>pending_pop\<close> is \<^verbatim>\<open>_PENDING_DOWNLOADS.pop(token, None)\<close>: the entry, if there is
  one, and the dictionary without it.  \<open>download_by_token\<close> pops before anything else.
\<close>

definition pending_pop :: "str \<Rightarrow> state \<Rightarrow> (path \<times> str) option \<times> state" where
  "pending_pop tok s = (pending s tok, s\<lparr>pending := (pending s)(tok := None)\<rparr>)"

definition download_by_token :: "str \<Rightarrow> state \<Rightarrow> response \<times> state" where
  "download_by_token tok s =
     (case pending_pop tok s of (entry, s1) \<Rightarrow>
      case entry of
           None \<Rightarrow> (Json 404 [(''error'', ustr ''Download link invalid or already used.'')], s1)
         | Some (p, download_name) \<Rightarrow>
             if \<not> isfile s1 (Some p)
             then (Json 404 [(''error'', ustr ''File no longer available.'')], s1)
             else (Stream p (content_disposition download_name) (getsize s1 p), s1))"

section \<open>The authentication gate\<close>

text \<open>\<open>require_auth\<close> runs before every request; \<open>None\<close> lets the request through.\<close>

definition require_auth :: "request \<Rightarrow> response option" where
  "require_auth req =
     (if endpoint req \<in> {Some ''login'', Some ''logout''} then None
      else if authenticated req then None
      else if meth req = ''GET'' then Some (Redirect ''login'' [(''next'', url req)])
      else Some (Json 401 [(''error'', ustr ''Authentication required.''),
                           (''login_url'', ustr ''/login'')]))"

section \<open>Concrete inputs\<close>

text \<open>
  The closed instances below need a value for the table of non-ASCII word characters.
  Their subjects are ASCII strings, on which the table is never consulted; \<open>no_word\<close>
  is the table with no entry.
\<close>

definition no_word :: "nat \<Rightarrow> bool" where
  "no_word c = False"

definition shorts_url :: str where
  "shorts_url = ustr ''https://www.youtube.com/shorts/abcdefghijk?feature=share''"

definition watch_and_playlist_url :: str where
  "watch_and_playlist_url =
     ustr ''https://www.youtube.com/watch?v=dQw4w9WgXcQ&next=https://www.youtube.com/playlist?list=PL123''"

definition one_pending :: state where
  "one_pending =
     \<lparr> files = [OutFile 0 (ustr ''out.mp4'') \<mapsto> [1, 2, 3]],
       pending = [ustr ''tok'' \<mapsto> (OutFile 0 (ustr ''out.mp4''), ustr ''video.mp4'')],
       fresh = 1, calls = [] \<rparr>"

definition anonymous :: "string option \<Rightarrow> string \<Rightarrow> request" where
  "anonymous ep m =
     \<lparr> endpoint = ep, meth = m, url = ustr ''http://host/'', authenticated = False,
       url_root = ustr ''http://host/'', form_url = None, files_cookies = None,
       form_return_url = None, args_return_url = None \<rparr>"

definition post_url :: "str \<Rightarrow> request" where
  "post_url u =
     \<lparr> endpoint = Some ''download_video'', meth = ''POST'',
       url = ustr ''http://host/ddddd/vvvvv'', authenticated = True,
       url_root = ustr ''http://host/'', form_url = Some u, files_cookies = None,
       form_return_url = None, args_return_url = None \<rparr>"

definition one_file :: env where
  "one_file =
     \<lparr> extract_info =
         (\<lambda>opts u. \<lparr> result = Returned (Some [(''id'', Some (ustr ''abcdefghijk''))]),
                     entries = [(ustr ''out.mp4'', Some [1, 2, 3])],
                     cookie_rewrite = None \<rparr>),
       copy_result = Copy_ok, unlink_fails = False, token = ustr ''tok'' \<rparr>"

definition empty_state :: state where
  "empty_state = \<lparr> files = Map.empty, pending = Map.empty, fresh = 0, calls = [] \<rparr>"

definition playlist_url :: str where
  "playlist_url = ustr ''https://www.youtube.com/playlist?list=PL123''"

definition padded_playlist_url :: str where
  "padded_playlist_url = ustr '' https://www.youtube.com/playlist?list=PL123''"

definition short_id_url :: str where
  "short_id_url = ustr ''https://www.youtube.com/watch?v=abc''"

definition upload_request :: request where
  "upload_request =
     (post_url shorts_url)\<lparr>files_cookies := Some (ustr ''cookies.txt'', [7, 7])\<rparr>"

definition deferred_request :: request where
  "deferred_request = (post_url shorts_url)\<lparr>form_return_url := Some (ustr ''1'')\<rparr>"

definition old_cookie_state :: state where
  "old_cookie_state =
     \<lparr> files = [PERSISTENT_COOKIE_PATH \<mapsto> [9]], pending = Map.empty, fresh = 0,
       calls = [] \<rparr>"

definition failing :: env where
  "failing =
     one_file\<lparr>extract_info :=
       (\<lambda>opts u. \<lparr> result = Raised, entries = [], cookie_rewrite = None \<rparr>)\<rparr>"

definition rewriting :: env where
  "rewriting =
     one_file\<lparr>extract_info :=
       (\<lambda>opts u. \<lparr> result = Raised, entries = [], cookie_rewrite = Some [5] \<rparr>)\<rparr>"

definition stuck :: env where
  "stuck = one_file\<lparr>unlink_fails := True\<rparr>"

section \<open>Whitespace stripping\<close>

lemma dropWhile_strip: "dropWhile isspace (strip s) = strip s"
proof -
  let ?t = "dropWhile isspace s"
  have pre: "?t = strip s @ rev (takeWhile isspace (rev ?t))"
    by (metis strip_def rev_append rev_rev_ident takeWhile_dropWhile_id)
  show ?thesis
  proof (cases "strip s")
    case Nil
    then show ?thesis by simp
  next
    case (Cons a as)
    then have "hd ?t = a" using pre by (metis hd_append2 list.sel(1) list.distinct(1))
    moreover have "?t \<noteq> []" using pre Cons by (metis append_is_Nil_conv list.distinct(1))
    ultimately have "\<not> isspace a" using hd_dropWhile by metis
    then show ?thesis using Cons by simp
  qed
qed

lemma strip_strip: "strip (strip s) = strip s"
proof -
  have "strip (strip s) = rev (dropWhile isspace (rev (strip s)))"
    unfolding strip_def[of "strip s"] dropWhile_strip ..
  also have "\<dots> = rev (dropWhile isspace (dropWhile isspace (rev (dropWhile isspace s))))"
    by (simp add: strip_def)
  also have "\<dots> = strip s" by (simp add: strip_def)
  finally show ?thesis .
qed

lemma strip_Nil: "strip [] = []"
  by (simp add: strip_def)

lemma is_youtube_url_strip: "is_youtube_url (strip u) = is_youtube_url u"
  by (auto simp: is_youtube_url_def strip_strip strip_Nil)

lemma is_playlist_url_strip: "is_playlist_url W (strip u) = is_playlist_url W u"
  by (auto simp: is_playlist_url_def strip_strip strip_Nil)

section \<open>The patterns\<close>

lemmas url_defs =
  prepare_url_def ustr_def strip_def isspace_def is_youtube_url_def is_playlist_url_def
  normalize_youtube_url_def YT_VALID_RE_search_def YT_VALID_RE_at_def
  YT_PLAYLIST_RE_search_def YT_PLAYLIST_RE_at_def YT_WATCH_RE_search_def YT_WATCH_RE_at_def
  lit_ci_def id11_def id_char_def v_id_def list_eq_def word_boundary_def is_word_def
  py_or_def py_format_def truthy_def video_id_from_url_def

lemma lits_append: "lits (a @ b) s = (case lits a s of None \<Rightarrow> None | Some r \<Rightarrow> lits b r)"
  by (induction a s rule: lits.induct) auto

lemma re_search_mono:
  assumes "\<And>t. f t \<noteq> None \<Longrightarrow> g t \<noteq> None"
  shows "re_search f s \<noteq> None \<Longrightarrow> re_search g s \<noteq> None"
proof (induction s)
  case Nil
  then show ?case using assms by simp
next
  case (Cons a s)
  show ?case
  proof (cases "f (a # s)")
    case None
    then show ?thesis using Cons by (auto split: option.splits)
  next
    case (Some m)
    then have "g (a # s) \<noteq> None" using assms by simp
    then show ?thesis by (auto split: option.splits)
  qed
qed

lemma re_search_SomeD: "re_search f s = Some m \<Longrightarrow> \<exists>t. f t = Some m"
  by (induction s) (auto split: option.splits)

lemma dotstar_SomeD: "dotstar k p s = Some r \<Longrightarrow> \<exists>q t. k q t = Some r"
  by (induction k p s rule: dotstar.induct) (auto split: option.splits if_splits)

lemma id11_SomeD: "id11 s = Some (g, r) \<Longrightarrow> length g = 11 \<and> list_all id_char g"
  by (auto simp: id11_def split: if_splits)

lemma v_id_SomeD: "v_id W p s = Some g \<Longrightarrow> length g = 11 \<and> list_all id_char g"
  by (auto simp: v_id_def split: if_splits option.splits dest: id11_SomeD)

text \<open>Whatever \<open>YT_WATCH_RE\<close> matches at a position, \<open>YT_VALID_RE\<close> matches there too.\<close>

lemma watch_at_valid_at: "YT_WATCH_RE_at W s \<noteq> None \<Longrightarrow> YT_VALID_RE_at s \<noteq> None"
proof -
  have a: "ustr ''youtube.com/watch?'' = ustr ''youtube.com/'' @ ustr ''watch?''"
    and b: "ustr ''youtube.com/shorts/'' = ustr ''youtube.com/'' @ ustr ''shorts/''"
    by (simp_all add: ustr_def)
  show "YT_WATCH_RE_at W s \<noteq> None \<Longrightarrow> YT_VALID_RE_at s \<noteq> None"
    unfolding YT_WATCH_RE_at_def YT_VALID_RE_at_def a b lits_append
    by (auto split: option.splits)
qed

lemma playlist_at_valid_at: "YT_PLAYLIST_RE_at W s \<noteq> None \<Longrightarrow> YT_VALID_RE_at s \<noteq> None"
  unfolding YT_PLAYLIST_RE_at_def YT_VALID_RE_at_def
  by (auto split: option.splits)

text \<open>Exactly one group of a match is set, and it holds eleven code points of the class.\<close>

lemma watch_at_groups:
  "YT_WATCH_RE_at W s = Some (g1, g2, g3) \<Longrightarrow>
   \<exists>g. py_or (py_or g1 g2) g3 = Some g \<and> length g = 11 \<and> list_all id_char g"
  unfolding YT_WATCH_RE_at_def
  by (auto simp: py_or_def split: option.splits dest!: dotstar_SomeD v_id_SomeD id11_SomeD)

lemma watch_search_Nil: "YT_WATCH_RE_search W [] = None"
  by (simp add: YT_WATCH_RE_search_def YT_WATCH_RE_at_def ustr_def)

lemma watch_search_valid: "YT_WATCH_RE_search W s \<noteq> None \<Longrightarrow> YT_VALID_RE_search s \<noteq> None"
  unfolding YT_WATCH_RE_search_def YT_VALID_RE_search_def
  using re_search_mono[of "YT_WATCH_RE_at W" YT_VALID_RE_at s] watch_at_valid_at[of W] by blast

lemma playlist_search_valid:
  "YT_PLAYLIST_RE_search W s \<noteq> None \<Longrightarrow> YT_VALID_RE_search s \<noteq> None"
  unfolding YT_PLAYLIST_RE_search_def YT_VALID_RE_search_def
  using re_search_mono[of "YT_PLAYLIST_RE_at W" YT_VALID_RE_at s] playlist_at_valid_at[of W]
  by blast

lemma watch_search_groups:
  "YT_WATCH_RE_search W s = Some (g1, g2, g3) \<Longrightarrow>
   \<exists>g. py_or (py_or g1 g2) g3 = Some g \<and> length g = 11 \<and> list_all id_char g"
  unfolding YT_WATCH_RE_search_def by (blast dest: re_search_SomeD watch_at_groups)

section \<open>Whitespace around a match\<close>

text \<open>
  No pattern matches whitespace at its first or last position, so stripping the
  subject changes nothing for the search: \<open>YT_WATCH_RE\<close> finds in the stripped string
  what it finds in the string itself.
\<close>

lemma id_char_not_space: "id_char c \<Longrightarrow> \<not> isspace c"
  by (auto simp: id_char_def isspace_def)

lemma lit_ci_space: "lit_ci l c \<Longrightarrow> isspace c \<Longrightarrow> isspace l"
  by (auto simp: lit_ci_def isspace_def)

lemma lits_append_ws:
  assumes "list_all (\<lambda>l. \<not> isspace l) ls" and "list_all isspace w"
  shows "lits ls (y @ w) = map_option (\<lambda>r. r @ w) (lits ls y)"
  using assms
proof (induction ls y rule: lits.induct)
  case (1 s)
  then show ?case by simp
next
  case (2 l ls)
  then show ?case by (cases w) (auto dest: lit_ci_space)
next
  case (3 l ls c cs)
  then show ?case by simp
qed

lemma id11_append_ws:
  assumes "list_all isspace w"
  shows "id11 (y @ w) = map_option (\<lambda>(g, r). (g, r @ w)) (id11 y)"
proof (cases "11 \<le> length y")
  case True
  then show ?thesis by (simp add: id11_def)
next
  case False
  then have n: "id11 y = None" by (simp add: id11_def)
  have "\<not> (11 \<le> length (y @ w) \<and> list_all id_char (take 11 (y @ w)))"
  proof
    assume a: "11 \<le> length (y @ w) \<and> list_all id_char (take 11 (y @ w))"
    with False obtain c w' where w: "w = c # w'" by (cases w) auto
    have "take 11 (y @ w) = y @ take (11 - length y) w" using False by simp
    moreover have "11 - length y = Suc (10 - length y)" using False by arith
    then have "take (11 - length y) w = c # take (10 - length y) w'"
      using w by simp
    ultimately have "id_char c" using a by (simp add: list_all_iff)
    moreover have "isspace c" using assms w by simp
    ultimately show False using id_char_not_space by blast
  qed
  then have "id11 (y @ w) = None" unfolding id11_def by (simp only: if_False)
  then show ?thesis using n by simp
qed

lemma v_id_space: "isspace c \<Longrightarrow> v_id W p (c # t) = None"
  by (auto simp: v_id_def ustr_def dest: lit_ci_space simp: isspace_def lit_ci_def)

lemma v_id_Nil: "v_id W p [] = None"
  by (simp add: v_id_def ustr_def)

lemma v_id_append_ws:
  assumes "list_all isspace w"
  shows "v_id W p (y @ w) = v_id W p y"
proof (cases y)
  case Nil
  then show ?thesis using assms by (cases w) (simp_all add: v_id_Nil v_id_space)
next
  case (Cons c cs)
  have l: "list_all (\<lambda>l. \<not> isspace l) (ustr ''v='')" by (simp add: ustr_def isspace_def)
  have wb: "word_boundary W (Some p) (y @ w) = word_boundary W (Some p) y"
    using Cons by (simp add: word_boundary_def)
  show ?thesis
    unfolding v_id_def wb lits_append_ws[OF l assms]
    by (auto simp: id11_append_ws[OF assms] option.map_comp comp_def case_prod_unfold
          split: option.splits)
qed

lemma dotstar_v_id_ws:
  "list_all isspace w \<Longrightarrow> dotstar (v_id W) p w = None"
  by (induction w arbitrary: p) (auto simp: v_id_Nil v_id_space)

lemma dotstar_v_id_append_ws:
  assumes "list_all isspace w"
  shows "dotstar (v_id W) p (y @ w) = dotstar (v_id W) p y"
proof (induction y arbitrary: p)
  case Nil
  then show ?case using assms by (simp add: dotstar_v_id_ws v_id_Nil)
next
  case (Cons c cs)
  have "v_id W p (c # cs @ w) = v_id W p (c # cs)"
    using v_id_append_ws[OF assms, of W p "c # cs"] by simp
  then show ?case using Cons by (auto split: option.splits)
qed

lemma watch_at_append_ws:
  assumes "list_all isspace w"
  shows "YT_WATCH_RE_at W (y @ w) = YT_WATCH_RE_at W y"
proof -
  have l: "list_all (\<lambda>l. \<not> isspace l) (ustr ''youtube.com/watch?'')"
    "list_all (\<lambda>l. \<not> isspace l) (ustr ''youtu.be/'')"
    "list_all (\<lambda>l. \<not> isspace l) (ustr ''youtube.com/shorts/'')"
    by (simp_all add: ustr_def isspace_def)
  show ?thesis
    unfolding YT_WATCH_RE_at_def lits_append_ws[OF l(1) assms] lits_append_ws[OF l(2) assms]
      lits_append_ws[OF l(3) assms]
    by (auto simp: dotstar_v_id_append_ws[OF assms] id11_append_ws[OF assms] split: option.splits)
qed

lemma watch_at_space: "isspace c \<Longrightarrow> YT_WATCH_RE_at W (c # t) = None"
  by (auto simp: YT_WATCH_RE_at_def ustr_def isspace_def lit_ci_def)

lemma watch_at_Nil: "YT_WATCH_RE_at W [] = None"
  by (simp add: YT_WATCH_RE_at_def ustr_def)

lemma re_search_ws:
  assumes "\<And>c t. isspace c \<Longrightarrow> at (c # t) = None" and "at [] = None"
  shows "list_all isspace w \<Longrightarrow> re_search at w = None"
  using assms by (induction w) simp_all

lemma re_search_append_ws:
  assumes "\<And>c t. isspace c \<Longrightarrow> at (c # t) = None" and "at [] = None"
    and "\<And>y. at (y @ w) = at y" and "list_all isspace w"
  shows "re_search at (y @ w) = re_search at y"
proof (induction y)
  case Nil
  then show ?case using re_search_ws[OF assms(1,2) assms(4)] assms(2) by simp
next
  case (Cons c cs)
  have "at (c # cs @ w) = at (c # cs)" using assms(3)[of "c # cs"] by simp
  then show ?case using Cons by (auto split: option.splits)
qed

lemma re_search_dropWhile:
  assumes "\<And>c t. isspace c \<Longrightarrow> at (c # t) = None"
  shows "re_search at (dropWhile isspace s) = re_search at s"
  using assms by (induction s) simp_all

lemma strip_decomp:
  "\<exists>w. list_all isspace w \<and> dropWhile isspace s = strip s @ w"
proof -
  let ?t = "dropWhile isspace s"
  have "?t = strip s @ rev (takeWhile isspace (rev ?t))"
    by (metis strip_def rev_append rev_rev_ident takeWhile_dropWhile_id)
  moreover have "list_all isspace (rev (takeWhile isspace (rev ?t)))"
    by (simp add: list_all_iff) (meson set_takeWhileD)
  ultimately show ?thesis by blast
qed

lemma watch_search_strip: "YT_WATCH_RE_search W (strip s) = YT_WATCH_RE_search W s"
proof -
  obtain w where w: "list_all isspace w" and d: "dropWhile isspace s = strip s @ w"
    using strip_decomp by blast
  have "YT_WATCH_RE_search W s = re_search (YT_WATCH_RE_at W) (dropWhile isspace s)"
    unfolding YT_WATCH_RE_search_def
    by (rule re_search_dropWhile[symmetric]) (rule watch_at_space)
  also have "\<dots> = re_search (YT_WATCH_RE_at W) (strip s)"
    unfolding d
    using re_search_append_ws[of "YT_WATCH_RE_at W" w "strip s"] watch_at_space[of _ W]
      watch_at_Nil[of W] watch_at_append_ws[OF w, of W] w
    by blast
  finally show ?thesis by (simp add: YT_WATCH_RE_search_def)
qed

lemma video_id_from_url_search:
  "video_id_from_url W u =
     (case YT_WATCH_RE_search W u of
        Some (g1, g2, g3) \<Rightarrow> py_or (py_or g1 g2) g3
      | None \<Rightarrow> None)"
  by (cases "u = []") (simp_all add: video_id_from_url_def watch_search_strip watch_search_Nil)

section \<open>URL preparation\<close>

lemma prepare_url_video:
  assumes v: "video_id_from_url W u = Some vid" and np: "\<not> is_playlist_url W u"
  shows "prepare_url W u = (Some (ustr ''https://www.youtube.com/watch?v='' @ vid), None) \<and>
         length vid = 11 \<and> list_all id_char vid"
proof -
  from v obtain g1 g2 g3 where
    m: "YT_WATCH_RE_search W (strip u) = Some (g1, g2, g3)"
    and g: "py_or (py_or g1 g2) g3 = Some vid" and u: "u \<noteq> []"
    by (auto simp: video_id_from_url_def split: if_splits option.splits)
  from m have s: "strip u \<noteq> []" using watch_search_Nil[of W] by auto
  from m have y: "is_youtube_url (strip u)"
    using watch_search_valid[of W "strip u"] s by (simp add: is_youtube_url_def strip_strip)
  from np have np': "\<not> is_playlist_url W (strip u)" by (simp add: is_playlist_url_strip)
  from np u s have pl: "YT_PLAYLIST_RE_search W (strip u) = None"
    by (cases "YT_PLAYLIST_RE_search W (strip u)") (auto simp: is_playlist_url_def)
  have n: "normalize_youtube_url W (strip u) =
             Some (ustr ''https://www.youtube.com/watch?v='' @ vid)"
    using s m g pl by (simp add: normalize_youtube_url_def strip_strip py_format_def)
  have t: "truthy (Some (ustr ''https://www.youtube.com/watch?v='' @ vid))"
    by (simp add: truthy_def ustr_def)
  from watch_search_groups[OF m] g have "length vid = 11 \<and> list_all id_char vid" by auto
  then show ?thesis using s y np' n t by (simp add: prepare_url_def)
qed

lemma prepare_url_reject:
  assumes "\<not> is_youtube_url u"
  shows "prepare_url W u =
           (None, Some (if strip u = [] then ustr ''Please enter a URL.''
                        else ustr ''Please enter a valid YouTube URL.''))"
  using assms by (simp add: prepare_url_def is_youtube_url_strip)

lemma prepare_url_playlist_strip:
  assumes "is_playlist_url W u"
  shows "prepare_url W u = (Some (strip u), None)"
proof -
  from assms have s: "strip u \<noteq> []" and p: "YT_PLAYLIST_RE_search W (strip u) \<noteq> None"
    by (auto simp: is_playlist_url_def split: if_splits)
  from p have "is_youtube_url (strip u)"
    using playlist_search_valid[of W "strip u"] s by (simp add: is_youtube_url_def strip_strip)
  then show ?thesis using s assms by (simp add: prepare_url_def is_playlist_url_strip)
qed

text \<open>
  C1 (as amended).  For every input in which the single-video pattern \<open>YT_WATCH_RE\<close>
  finds a match and which does not also match the playlist pattern, the pattern
  yields an id of eleven code points of the id class, and URL preparation returns
  exactly \<^verbatim>\<open>https://www.youtube.com/watch?v=\<close> followed by that id, and no error;
  the two inputs of the specification both give
  \<^verbatim>\<open>https://www.youtube.com/watch?v=dQw4w9WgXcQ\<close>.
\<close>

theorem prepare_url_single_video:
  "(YT_WATCH_RE_search W u \<noteq> None \<and> \<not> is_playlist_url W u \<longrightarrow>
      (\<exists>vid. video_id_from_url W u = Some vid \<and> length vid = 11 \<and> list_all id_char vid \<and>
             prepare_url W u =
               (Some (ustr ''https://www.youtube.com/watch?v='' @ vid), None))) \<and>
   prepare_url W (ustr ''https://youtu.be/dQw4w9WgXcQ?t=30'') =
     (Some (ustr ''https://www.youtube.com/watch?v=dQw4w9WgXcQ''), None) \<and>
   prepare_url W (ustr ''https://www.youtube.com/watch?v=dQw4w9WgXcQ&list=PL123&index=3'') =
     (Some (ustr ''https://www.youtube.com/watch?v=dQw4w9WgXcQ''), None)"
proof (intro conjI impI)
  assume h: "YT_WATCH_RE_search W u \<noteq> None \<and> \<not> is_playlist_url W u"
  then obtain g1 g2 g3 where m: "YT_WATCH_RE_search W u = Some (g1, g2, g3)"
    by (cases "YT_WATCH_RE_search W u") auto
  from watch_search_groups[OF m] obtain vid where
    g: "py_or (py_or g1 g2) g3 = Some vid" by blast
  have v: "video_id_from_url W u = Some vid"
    using m g by (simp add: video_id_from_url_search)
  from prepare_url_video[OF v] h
  show "\<exists>vid. video_id_from_url W u = Some vid \<and> length vid = 11 \<and> list_all id_char vid \<and>
             prepare_url W u =
               (Some (ustr ''https://www.youtube.com/watch?v='' @ vid), None)"
    using v by blast
next
  show "prepare_url W (ustr ''https://youtu.be/dQw4w9WgXcQ?t=30'') =
          (Some (ustr ''https://www.youtube.com/watch?v=dQw4w9WgXcQ''), None)"
    by (simp add: url_defs)
next
  show "prepare_url W (ustr ''https://www.youtube.com/watch?v=dQw4w9WgXcQ&list=PL123&index=3'') =
          (Some (ustr ''https://www.youtube.com/watch?v=dQw4w9WgXcQ''), None)"
    by (simp add: url_defs)
qed

theorem prepare_url_single_video_witness:
  "YT_WATCH_RE_search no_word shorts_url \<noteq> None \<and>
   \<not> is_playlist_url no_word shorts_url \<and>
   video_id_from_url no_word shorts_url = Some (ustr ''abcdefghijk'') \<and>
   prepare_url no_word shorts_url =
     (Some (ustr ''https://www.youtube.com/watch?v=abcdefghijk''), None)"
proof -
  have h: "YT_WATCH_RE_search no_word shorts_url \<noteq> None \<and>
           \<not> is_playlist_url no_word shorts_url"
    by (simp add: shorts_url_def url_defs no_word_def)
  have v: "video_id_from_url no_word shorts_url = Some (ustr ''abcdefghijk'')"
    by (simp add: shorts_url_def url_defs no_word_def)
  from prepare_url_single_video[of no_word shorts_url] h v
  have "prepare_url no_word shorts_url =
          (Some (ustr ''https://www.youtube.com/watch?v='' @ ustr ''abcdefghijk''), None)"
    by auto
  then show ?thesis using h v by (simp add: ustr_def)
qed

text \<open>
  The claim as written fails on an input that matches the single-video pattern and the
  playlist pattern at once: the playlist test comes first, and this input comes back
  with all its parameters.
\<close>

theorem prepare_url_single_video_counterexample:
  "YT_WATCH_RE_search no_word watch_and_playlist_url \<noteq> None \<and>
   video_id_from_url no_word watch_and_playlist_url = Some (ustr ''dQw4w9WgXcQ'') \<and>
   prepare_url no_word watch_and_playlist_url = (Some watch_and_playlist_url, None) \<and>
   prepare_url no_word watch_and_playlist_url \<noteq>
     (Some (ustr ''https://www.youtube.com/watch?v=dQw4w9WgXcQ''), None)"
  by (simp add: watch_and_playlist_url_def url_defs no_word_def)

text \<open>
  C10.  For every input, URL preparation returns either a URL and no error, or no URL
  and an error message that is not empty; never both and never neither.  (The URL is
  not empty either.)
\<close>

theorem prepare_url_exactly_one:
  "(\<exists>u'. prepare_url W u = (Some u', None) \<and> u' \<noteq> []) \<or>
   (\<exists>e. prepare_url W u = (None, Some e) \<and> e \<noteq> [])"
  by (auto simp: prepare_url_def Let_def truthy_def ustr_def split: option.splits)

theorem prepare_url_exactly_one_witness:
  "prepare_url no_word shorts_url =
     (Some (ustr ''https://www.youtube.com/watch?v=abcdefghijk''), None) \<and>
   prepare_url no_word (ustr ''https://example.com'') =
     (None, Some (ustr ''Please enter a valid YouTube URL.''))"
proof -
  note prepare_url_exactly_one[of no_word shorts_url]
  then show ?thesis by (simp add: shorts_url_def url_defs no_word_def)
qed

section \<open>Tokens\<close>

text \<open>
  C4.  Popping a token returns its entry and removes it, so a second pop of the same
  token finds nothing; and whatever the first request for \<^verbatim>\<open>/download/<token>\<close>
  answered, the second one answers 404 with the message
  \<^verbatim>\<open>Download link invalid or already used.\<close>
\<close>

theorem token_single_use:
  "fst (pending_pop tok s) = pending s tok \<and>
   fst (pending_pop tok (snd (pending_pop tok s))) = None \<and>
   fst (download_by_token tok (snd (download_by_token tok s))) =
     Json 404 [(''error'', ustr ''Download link invalid or already used.'')]"
  by (auto simp: pending_pop_def download_by_token_def split: option.splits)

theorem token_single_use_witness:
  "fst (download_by_token (ustr ''tok'') one_pending) =
     Stream (OutFile 0 (ustr ''out.mp4'')) (content_disposition (ustr ''video.mp4'')) 3 \<and>
   fst (download_by_token (ustr ''tok'') (snd (download_by_token (ustr ''tok'') one_pending))) =
     Json 404 [(''error'', ustr ''Download link invalid or already used.'')]"
proof -
  note token_single_use[of "ustr ''tok''" one_pending]
  then show ?thesis
    by (simp add: one_pending_def download_by_token_def pending_pop_def isfile_def getsize_def)
qed

section \<open>The gate\<close>

text \<open>
  C7.  A request without an authenticated session to an endpoint other than login and
  logout is answered by a redirect to the login page that carries the request's URL
  when its method is GET, and by a JSON body with status 401 otherwise; requests to
  login and logout pass the gate whatever the session.
\<close>

theorem require_auth_gate:
  "(endpoint req \<notin> {Some ''login'', Some ''logout''} \<and> \<not> authenticated req \<longrightarrow>
      (meth req = ''GET'' \<longrightarrow>
         require_auth req = Some (Redirect ''login'' [(''next'', url req)])) \<and>
      (meth req \<noteq> ''GET'' \<longrightarrow>
         require_auth req =
           Some (Json 401 [(''error'', ustr ''Authentication required.''),
                           (''login_url'', ustr ''/login'')]))) \<and>
   (endpoint req \<in> {Some ''login'', Some ''logout''} \<longrightarrow> require_auth req = None)"
  by (simp add: require_auth_def)

theorem require_auth_gate_witness:
  "require_auth (anonymous (Some ''index'') ''GET'') =
     Some (Redirect ''login'' [(''next'', ustr ''http://host/'')]) \<and>
   require_auth (anonymous (Some ''download_video'') ''POST'') =
     Some (Json 401 [(''error'', ustr ''Authentication required.''),
                     (''login_url'', ustr ''/login'')]) \<and>
   require_auth (anonymous (Some ''login'') ''POST'') = None"
proof -
  note a = require_auth_gate[of "anonymous (Some ''index'') ''GET''"]
  note b = require_auth_gate[of "anonymous (Some ''download_video'') ''POST''"]
  note c = require_auth_gate[of "anonymous (Some ''login'') ''POST''"]
  from a b c show ?thesis by (simp add: anonymous_def)
qed

section \<open>The download handler\<close>

lemma prepare_url_error_nonempty:
  "prepare_url W u = (x, Some msg) \<Longrightarrow> x = None \<and> msg \<noteq> []"
  by (auto simp: prepare_url_def Let_def ustr_def split: if_splits)

lemma url_field_post: "url_field (post_url u) = u"
  by (cases u) (simp_all add: url_field_def post_url_def py_or_def py_format_def)

lemma write_entries_persistent:
  "write_entries d es fs PERSISTENT_COOKIE_PATH = fs PERSISTENT_COOKIE_PATH"
  by (induction es arbitrary: fs) auto

lemma write_entries_tmp: "write_entries d es fs (TmpFile n) = fs (TmpFile n)"
  by (induction es arbitrary: fs) auto

text \<open>The path that \<open>download\<close> returns, if any, is an entry of the output directory.\<close>

lemma download_shape:
  assumes "download W e u a c s = ((p, i), s2)"
  shows "p = None \<or> (\<exists>d x. p = Some (OutFile d x))"
  using assms
  by (auto simp: download_def Let_def split: if_splits extracted.splits list.splits)

text \<open>
  Outside the output directory, one run of \<open>download\<close> changes at most the cookie file
  that the options name, and only if the library rewrites it.
\<close>

lemma download_files:
  assumes "download W e (Some v) a c s = ((p, i), s2)" and "strip v \<noteq> []"
    and "q = PERSISTENT_COOKIE_PATH \<or> (\<exists>n. q = TmpFile n)"
    and "opts = build_opts W (s\<lparr>fresh := Suc (fresh s)\<rparr>) (fresh s) v a c"
  shows "files s2 q =
           (if cookiefile opts = Some q
            then (case cookie_rewrite (extract_info e opts v) of
                    None \<Rightarrow> files s q | Some b \<Rightarrow> Some b)
            else files s q)"
proof -
  from assms(2) have v: "v \<noteq> []" by (auto simp: strip_Nil)
  show ?thesis
    using assms v
    by (auto simp: download_def Let_def truthy_def py_format_def write_entries_persistent
               write_entries_tmp
             split: extracted.splits list.splits option.splits if_splits)
qed

lemma build_opts_cookiefile:
  "cookiefile (build_opts W s d v a c) = (if isfile s c then c else None)"
  by (simp add: build_opts_def)

text \<open>A URL that is not blank is handed to the library exactly once.\<close>

lemma download_calls:
  assumes "strip v \<noteq> []"
  shows "calls (snd (download W e (Some v) a c s)) =
           (build_opts W (s\<lparr>fresh := Suc (fresh s)\<rparr>) (fresh s) v a c, v) # calls s"
proof -
  from assms have "v \<noteq> []" by (auto simp: strip_Nil)
  then show ?thesis using assms
    by (auto simp: download_def Let_def truthy_def py_format_def
             split: extracted.splits list.splits)
qed

lemma save_upload_calls: "save_upload req s = (up, s1) \<Longrightarrow> calls s1 = calls s"
  by (auto simp: save_upload_def split: option.splits)

lemma persist_cookie_calls: "calls (persist_cookie e p up s) = calls s"
  by (simp add: persist_cookie_def split: option.splits copy_outcome.splits)

lemma unlink_upload_calls: "calls (unlink_upload e up s) = calls s"
  by (simp add: unlink_upload_def split: option.splits)

lemma deliver_calls: "calls (snd (deliver e a req p s)) = calls s"
  by (simp add: deliver_def Let_def)

lemma handle_download_calls:
  assumes "prepare_url W (url_field req) = (Some v, None)"
  shows "\<exists>c s1. calls s1 = calls s \<and>
           calls (snd (handle_download W e a req s)) =
             calls (snd (download W e (Some v) a c s1))"
proof -
  obtain up s1 where su: "save_upload req s = (up, s1)" by (cases "save_upload req s")
  let ?c = "if up = None \<and> isfile s1 (Some PERSISTENT_COOKIE_PATH)
            then Some PERSISTENT_COOKIE_PATH else up"
  obtain p i s2 where d: "download W e (Some v) a ?c s1 = ((p, i), s2)"
    by (metis prod.exhaust)
  have "calls (snd (handle_download W e a req s)) = calls s2"
    using assms su d
    by (auto simp: handle_download_def truthy_def Let_def persist_cookie_calls
          unlink_upload_calls deliver_calls split: option.splits)
  moreover have "calls s1 = calls s" using su by (rule save_upload_calls)
  ultimately show ?thesis using d by (metis snd_conv)
qed

lemma handle_download_invalid:
  assumes "prepare_url W (url_field req) = (x, Some msg)" and "msg \<noteq> []"
  shows "handle_download W e a req s = (Json 400 [(''error'', msg)], s)"
  using assms by (simp add: handle_download_def truthy_def py_format_def)

lemma build_opts_playlist:
  "playlist_items (build_opts W s d v a c) = (if is_playlist_url W v then Some ''1'' else None)"
  by (simp add: build_opts_def)

text \<open>
  C8.  When URL preparation returns an error message for the request's \<^verbatim>\<open>url\<close> field,
  the handler answers 400 with that message, which is not empty, and returns the state
  it was given: the pending downloads, the files (so the persisted cookie file and the
  temporary files), the counter of temporary names and the log of invocations of the
  extraction library are all as before.
\<close>

theorem validation_failure_changes_nothing:
  "snd (prepare_url W (url_field req)) = Some msg \<longrightarrow>
     handle_download W e a req s = (Json 400 [(''error'', msg)], s) \<and> msg \<noteq> []"
proof
  assume h: "snd (prepare_url W (url_field req)) = Some msg"
  then obtain x where p: "prepare_url W (url_field req) = (x, Some msg)"
    by (cases "prepare_url W (url_field req)") auto
  then have "msg \<noteq> []" using prepare_url_error_nonempty by blast
  then show "handle_download W e a req s = (Json 400 [(''error'', msg)], s) \<and> msg \<noteq> []"
    using handle_download_invalid[OF p] by simp
qed

theorem validation_failure_changes_nothing_witness:
  "snd (prepare_url no_word (url_field (post_url []))) = Some (ustr ''Please enter a URL.'') \<and>
   handle_download no_word one_file False (post_url []) empty_state =
     (Json 400 [(''error'', ustr ''Please enter a URL.'')], empty_state)"
proof -
  have h: "snd (prepare_url no_word (url_field (post_url []))) =
             Some (ustr ''Please enter a URL.'')"
    by (simp add: url_field_post prepare_url_def strip_def)
  from validation_failure_changes_nothing
         [of no_word "post_url []" "ustr ''Please enter a URL.''" one_file False empty_state] h
  show ?thesis by blast
qed

text \<open>
  C2 (as amended).  For every input that \<open>is_youtube_url\<close> does not accept (the empty
  string, a string of whitespace, a string that holds none of the four YouTube URL
  shapes, such as a URL on another domain), URL preparation returns no URL and the
  message \<^verbatim>\<open>Please enter a URL.\<close> when the stripped input is empty, else
  \<^verbatim>\<open>Please enter a valid YouTube URL.\<close>; and a download request with such a
  \<^verbatim>\<open>url\<close> field never invokes the extraction library.
\<close>

theorem prepare_url_rejects:
  "\<not> is_youtube_url u \<longrightarrow>
     prepare_url W u =
       (None, Some (if strip u = [] then ustr ''Please enter a URL.''
                    else ustr ''Please enter a valid YouTube URL.'')) \<and>
     (url_field req = u \<longrightarrow> calls (snd (handle_download W e a req s)) = calls s)"
proof (intro impI conjI)
  assume n: "\<not> is_youtube_url u"
  then show p: "prepare_url W u =
       (None, Some (if strip u = [] then ustr ''Please enter a URL.''
                    else ustr ''Please enter a valid YouTube URL.''))"
    by (rule prepare_url_reject)
  assume "url_field req = u"
  with p have "prepare_url W (url_field req) =
       (None, Some (if strip u = [] then ustr ''Please enter a URL.''
                    else ustr ''Please enter a valid YouTube URL.''))" by simp
  from handle_download_invalid[OF this]
  show "calls (snd (handle_download W e a req s)) = calls s"
    by (simp add: ustr_def)
qed

theorem prepare_url_rejects_witness:
  "\<not> is_youtube_url (ustr ''https://example.com'') \<and>
   prepare_url no_word (ustr ''https://example.com'') =
     (None, Some (ustr ''Please enter a valid YouTube URL.'')) \<and>
   \<not> is_youtube_url (ustr ''  '') \<and>
   prepare_url no_word (ustr ''  '') = (None, Some (ustr ''Please enter a URL.'')) \<and>
   calls (snd (handle_download no_word one_file False
                 (post_url (ustr ''https://example.com'')) empty_state)) = []"
proof -
  have a: "\<not> is_youtube_url (ustr ''https://example.com'')"
    and b: "\<not> is_youtube_url (ustr ''  '')"
    by (simp_all add: url_defs)
  have sa: "strip (ustr ''https://example.com'') \<noteq> []" and sb: "strip (ustr ''  '') = []"
    by (simp_all add: url_defs)
  from prepare_url_rejects[of "ustr ''https://example.com''" no_word
         "post_url (ustr ''https://example.com'')" one_file False empty_state]
       prepare_url_rejects[of "ustr ''  ''" no_word "post_url (ustr ''  '')"
         one_file False empty_state] a b sa sb
  show ?thesis by (simp add: empty_state_def url_field_post)
qed

text \<open>
  The claim as written also promises a rejection for a YouTube-shaped URL whose video
  id is malformed.  The URL \<^verbatim>\<open>https://www.youtube.com/watch?v=abc\<close>, whose id has
  three characters, passes \<open>is_youtube_url\<close>, is returned with no error, and is handed
  to the extraction library.
\<close>

theorem prepare_url_rejects_counterexample:
  "prepare_url no_word short_id_url = (Some short_id_url, None) \<and>
   calls (snd (handle_download no_word one_file False (post_url short_id_url) empty_state))
     \<noteq> []"
proof -
  have p: "prepare_url no_word short_id_url = (Some short_id_url, None)"
    by (simp add: short_id_url_def url_defs no_word_def)
  have s: "strip short_id_url \<noteq> []"
    by (simp add: short_id_url_def url_defs)
  have "prepare_url no_word (url_field (post_url short_id_url)) = (Some short_id_url, None)"
    using p by (simp add: url_field_post)
  from handle_download_calls[OF this, where e=one_file and a=False and s=empty_state]
       download_calls[OF s]
  have "calls (snd (handle_download no_word one_file False (post_url short_id_url) empty_state))
          \<noteq> []"
    by auto
  then show ?thesis using p by simp
qed

text \<open>
  C5 (as amended).  For every input that matches the playlist pattern, URL preparation
  returns the input with the whitespace at its ends stripped and nothing else changed
  (so the input itself when it has no such whitespace), and no error; and the download
  request with that \<^verbatim>\<open>url\<close> field invokes the extraction library once, on that URL,
  with \<^verbatim>\<open>playlist_items\<close> set to \<^verbatim>\<open>"1"\<close>.
\<close>

theorem prepare_url_playlist:
  "is_playlist_url W u \<longrightarrow>
     prepare_url W u = (Some (strip u), None) \<and>
     (url_field req = u \<longrightarrow>
        (\<exists>opts. calls (snd (handle_download W e a req s)) = (opts, strip u) # calls s \<and>
                playlist_items opts = Some ''1''))"
proof (intro impI conjI)
  assume pl: "is_playlist_url W u"
  then show p: "prepare_url W u = (Some (strip u), None)" by (rule prepare_url_playlist_strip)
  assume "url_field req = u"
  with p have q: "prepare_url W (url_field req) = (Some (strip u), None)" by simp
  from pl have s: "strip (strip u) \<noteq> []"
    by (auto simp: is_playlist_url_def strip_strip split: if_splits)
  from pl have pl': "is_playlist_url W (strip u)" by (simp add: is_playlist_url_strip)
  from handle_download_calls[OF q, where e=e and a=a and s=s] obtain c s1 where
    c: "calls s1 = calls s" and
    h: "calls (snd (handle_download W e a req s)) =
          calls (snd (download W e (Some (strip u)) a c s1))"
    by blast
  show "\<exists>opts. calls (snd (handle_download W e a req s)) = (opts, strip u) # calls s \<and>
                playlist_items opts = Some ''1''"
    unfolding h download_calls[OF s] c using pl' by (simp add: build_opts_playlist)
qed

theorem prepare_url_playlist_witness:
  "is_playlist_url no_word playlist_url \<and>
   prepare_url no_word playlist_url = (Some playlist_url, None) \<and>
   map (\<lambda>c. (playlist_items (fst c), snd c))
     (calls (snd (handle_download no_word one_file False (post_url playlist_url) empty_state))) =
     [(Some ''1'', playlist_url)]"
proof -
  have a: "is_playlist_url no_word playlist_url"
    by (simp add: playlist_url_def url_defs no_word_def)
  have b: "strip playlist_url = playlist_url"
    by (simp add: playlist_url_def url_defs)
  from prepare_url_playlist[of no_word playlist_url "post_url playlist_url" one_file False
         empty_state] a b
  show ?thesis by (auto simp: url_field_post empty_state_def)
qed

text \<open>
  The claim as written says the identity; an input with whitespace around the URL
  matches the playlist pattern and comes back stripped.
\<close>

theorem prepare_url_playlist_counterexample:
  "is_playlist_url no_word padded_playlist_url \<and>
   prepare_url no_word padded_playlist_url = (Some playlist_url, None) \<and>
   prepare_url no_word padded_playlist_url \<noteq> (Some padded_playlist_url, None)"
  by (simp add: padded_playlist_url_def playlist_url_def url_defs no_word_def)

section \<open>After the download\<close>

lemma prepare_url_cases:
  "(\<exists>v. prepare_url W u = (Some v, None) \<and> v \<noteq> []) \<or>
   (\<exists>msg. prepare_url W u = (None, Some msg) \<and> msg \<noteq> [])"
  by (auto simp: prepare_url_def Let_def truthy_def ustr_def split: option.splits)

lemma handle_download_stages:
  assumes "prepare_url W (url_field req) = (Some v, None)"
      and "save_upload req s = (up, s1)"
      and "download W e (Some v) a
             (if up = None \<and> isfile s1 (Some PERSISTENT_COOKIE_PATH)
              then Some PERSISTENT_COOKIE_PATH else up) s1 = ((p, i), s2)"
  shows "handle_download W e a req s = finish e a req up p s2"
  using assms by (simp add: handle_download_def truthy_def Let_def finish_def)

lemma download_copy_result:
  "download W (e\<lparr>copy_result := x\<rparr>) u a c s = download W e u a c s"
  by (simp add: download_def)

lemma deliver_not_error: "\<not> is_error (fst (deliver e a req p s))"
  by (simp add: deliver_def Let_def is_error_def)

lemma deliver_files: "files (snd (deliver e a req p s)) = files s"
  by (simp add: deliver_def Let_def)

lemma is_error_failed: "is_error download_failed"
  by (simp add: is_error_def download_failed_def)

lemma finish_calls: "calls (snd (finish e a req up p s2)) = calls s2"
  by (cases p)
     (simp_all add: finish_def Let_def persist_cookie_calls unlink_upload_calls deliver_calls)

lemma finish_no_upload:
  "files (snd (finish e a req None p s2)) = files s2"
  by (simp add: finish_def Let_def unlink_upload_def persist_cookie_def deliver_files
        split: option.splits)

text \<open>
  The files after the copy and the unlink, when the uploaded copy is at \<open>TmpFile n\<close>
  and holds \<open>b\<close>.
\<close>

lemma finish_upload_state:
  assumes "files s2 (TmpFile n) = Some b"
  shows "files (unlink_upload e (Some (TmpFile n)) (persist_cookie e p (Some (TmpFile n)) s2)) =
           (\<lambda>q. if q = TmpFile n then (if unlink_fails e then Some b else None)
                else if q = PERSISTENT_COOKIE_PATH \<and> isfile s2 p
                then (case copy_result e of
                        Copy_ok \<Rightarrow> Some b
                      | Copy_raised_untouched \<Rightarrow> files s2 PERSISTENT_COOKIE_PATH
                      | Copy_raised_partial c \<Rightarrow> Some c)
                else files s2 q)"
  using assms
  by (auto simp: unlink_upload_def persist_cookie_def isfile_def fun_eq_iff
           split: copy_outcome.splits)

lemma finish_upload:
  assumes "files s2 (TmpFile n) = Some b" and "p = None \<or> (\<exists>d x. p = Some (OutFile d x))"
  shows "files (snd (finish e a req (Some (TmpFile n)) p s2)) PERSISTENT_COOKIE_PATH =
           (if is_error (fst (finish e a req (Some (TmpFile n)) p s2))
            then files s2 PERSISTENT_COOKIE_PATH
            else (case copy_result e of
                    Copy_ok \<Rightarrow> Some b
                  | Copy_raised_untouched \<Rightarrow> files s2 PERSISTENT_COOKIE_PATH
                  | Copy_raised_partial c \<Rightarrow> Some c))"
    and "files (snd (finish e a req (Some (TmpFile n)) p s2)) (TmpFile n) =
           (if unlink_fails e then Some b else None)"
proof -
  let ?s4 = "unlink_upload e (Some (TmpFile n)) (persist_cookie e p (Some (TmpFile n)) s2)"
  note f = finish_upload_state[OF assms(1)]
  have i: "isfile ?s4 p = isfile s2 p"
    using assms(2) by (auto simp: isfile_def f)
  show "files (snd (finish e a req (Some (TmpFile n)) p s2)) PERSISTENT_COOKIE_PATH =
           (if is_error (fst (finish e a req (Some (TmpFile n)) p s2))
            then files s2 PERSISTENT_COOKIE_PATH
            else (case copy_result e of
                    Copy_ok \<Rightarrow> Some b
                  | Copy_raised_untouched \<Rightarrow> files s2 PERSISTENT_COOKIE_PATH
                  | Copy_raised_partial c \<Rightarrow> Some c))"
  proof (cases p)
    case None
    then show ?thesis by (simp add: finish_def Let_def is_error_failed f isfile_def)
  next
    case (Some q)
    show ?thesis
    proof (cases "isfile s2 p")
      case True
      then show ?thesis using Some i
        by (simp add: finish_def Let_def deliver_not_error deliver_files f)
    next
      case False
      then show ?thesis using Some i
        by (simp add: finish_def Let_def is_error_failed f)
    qed
  qed
  show "files (snd (finish e a req (Some (TmpFile n)) p s2)) (TmpFile n) =
           (if unlink_fails e then Some b else None)"
  proof (cases p)
    case None
    then show ?thesis by (simp add: finish_def Let_def f)
  next
    case (Some q)
    then show ?thesis by (simp add: finish_def Let_def deliver_files f)
  qed
qed

lemma stages_out:
  assumes "up = None \<or> (\<exists>n. up = Some (TmpFile n))"
  shows "files (unlink_upload e up (persist_cookie e p up s)) (OutFile d x) =
           files s (OutFile d x)"
  using assms
  by (auto simp: unlink_upload_def persist_cookie_def split: option.splits copy_outcome.splits)

lemma deliver_fst:
  "fst (deliver e a req q s) =
     (let download_name = (if a then ustr ''audio.mp3'' else ustr ''video.mp4'');
          return_url = py_or (form_return_url req) (args_return_url req)
      in if truthy return_url \<and>
            strip (py_format return_url) \<in> {ustr ''1'', ustr ''true'', ustr ''yes''}
         then Json 200 [(''download_url'', url_root req @ ustr ''download/'' @ token e),
                         (''filename'', download_name)]
         else Stream q (content_disposition download_name) (getsize s q))"
  by (simp add: deliver_def Let_def)

lemma finish_fst:
  assumes "up = None \<or> (\<exists>n. up = Some (TmpFile n))"
    and "p = None \<or> (\<exists>d x. p = Some (OutFile d x))"
  shows "fst (finish e a req up p s2) =
           (case p of
              None \<Rightarrow> download_failed
            | Some q \<Rightarrow> if files s2 q = None then download_failed
                        else fst (deliver e a req q s2))"
proof (cases p)
  case None
  then show ?thesis by (simp add: finish_def Let_def)
next
  case (Some q)
  with assms(2) obtain d x where q: "q = OutFile d x" by auto
  show ?thesis
    using Some q stages_out[OF assms(1), of e p s2 d x]
    by (simp add: finish_def Let_def isfile_def deliver_fst getsize_def)
qed

lemma deliver_copy_result:
  "deliver (e\<lparr>copy_result := x\<rparr>) a req q s = deliver e a req q s"
  by (simp add: deliver_def Let_def)

lemma finish_copy_result:
  assumes "up = None \<or> (\<exists>n. up = Some (TmpFile n))"
    and "p = None \<or> (\<exists>d x. p = Some (OutFile d x))"
  shows "fst (finish (e\<lparr>copy_result := x\<rparr>) a req up p s2) = fst (finish e a req up p s2)"
  unfolding finish_fst[OF assms] by (cases p) (simp_all add: deliver_copy_result)

lemma save_upload_shape:
  "save_upload req s = (up, s1) \<Longrightarrow> up = None \<or> (\<exists>n. up = Some (TmpFile n))"
  by (auto simp: save_upload_def split: option.splits)

text \<open>The response does not depend on how the copy into the persistent location ends.\<close>

lemma handle_download_copy_result:
  "fst (handle_download W (e\<lparr>copy_result := x\<rparr>) a req s) = fst (handle_download W e a req s)"
proof -
  from prepare_url_cases[of W "url_field req"] show ?thesis
  proof
    assume "\<exists>v. prepare_url W (url_field req) = (Some v, None) \<and> v \<noteq> []"
    then obtain v where v: "prepare_url W (url_field req) = (Some v, None)" by blast
    obtain up s1 where su: "save_upload req s = (up, s1)" by (cases "save_upload req s")
    let ?c = "if up = None \<and> isfile s1 (Some PERSISTENT_COOKIE_PATH)
              then Some PERSISTENT_COOKIE_PATH else up"
    obtain p i s2 where d: "download W e (Some v) a ?c s1 = ((p, i), s2)"
      by (metis prod.exhaust)
    then have d': "download W (e\<lparr>copy_result := x\<rparr>) (Some v) a ?c s1 = ((p, i), s2)"
      by (simp add: download_copy_result)
    have sh: "p = None \<or> (\<exists>d x. p = Some (OutFile d x))" using download_shape[OF d] .
    show ?thesis
      unfolding handle_download_stages[OF v su d] handle_download_stages[OF v su d']
      by (rule finish_copy_result[OF save_upload_shape[OF su] sh])
  next
    assume "\<exists>msg. prepare_url W (url_field req) = (None, Some msg) \<and> msg \<noteq> []"
    then obtain msg where m: "prepare_url W (url_field req) = (None, Some msg)" "msg \<noteq> []"
      by blast
    show ?thesis by (simp add: handle_download_invalid[OF m])
  qed
qed

text \<open>A URL that passed the validation is not blank.\<close>

lemma strip_Cons_nonspace: "\<not> isspace c \<Longrightarrow> strip (c # cs) \<noteq> []"
proof -
  assume n: "\<not> isspace c"
  have "dropWhile isspace (rev cs @ [c]) \<noteq> []"
    using n by (simp add: dropWhile_append)
  then show ?thesis using n by (simp add: strip_def)
qed

lemma prepare_url_not_blank:
  assumes "prepare_url W u = (Some v, None)"
  shows "strip v \<noteq> []"
proof -
  have a: "strip u \<noteq> [] \<Longrightarrow> strip (strip u) \<noteq> []" by (simp add: strip_strip)
  have b: "\<And>x. strip (ustr ''https://www.youtube.com/watch?v='' @ x) \<noteq> []"
    using strip_Cons_nonspace[of 104] by (simp add: ustr_def isspace_def)
  show ?thesis
    using assms a b
    by (auto simp: prepare_url_def Let_def truthy_def normalize_youtube_url_def strip_strip
             split: if_splits option.splits)
qed

lemmas eval_defs =
  handle_download_def url_field_def uploaded_cookies_def save_upload_def persist_cookie_def
  unlink_upload_def deliver_def download_failed_def is_error_def download_def build_opts_def
  isfile_def getsize_def content_disposition_def replace1_def post_url_def one_file_def
  empty_state_def info_truthy_def Let_def upload_request_def deferred_request_def
  old_cookie_state_def failing_def rewriting_def stuck_def shorts_url_def no_word_def url_defs

text \<open>
  C6 (as amended).  Let a download request pass the validation, so that it invokes the
  extraction library once, with options \<open>opts\<close> on the URL \<open>v\<close>, and let it end with
  response \<open>r\<close> in state \<open>s'\<close>.

  With no upload, the library is handed the persisted cookie file, if there is one, as
  its cookie file; the handler does not write that file, which afterwards holds what
  the library wrote there, and its old contents only if the library left it alone.

  With an upload, the library is handed the temporary copy of the upload.  The
  persisted file is unchanged when the request fails (\<open>r\<close> is a 400).  When the
  request succeeds, the handler copies the temporary copy (the upload, or what the
  library rewrote it to) over the persisted file; if that copy raises, the persisted
  file is as the failed copy left it.  The temporary copy is gone afterwards whatever
  the extraction did, unless \<^verbatim>\<open>os.unlink\<close> raised.

  The response is the same however the copy into the persistent location ends.
\<close>

theorem cookie_store_update:
  "handle_download W e a req s = (r, s') \<and> calls s' = (opts, v) # calls s \<longrightarrow>
     (case uploaded_cookies req of
        None \<Rightarrow>
          cookiefile opts =
            (if files s PERSISTENT_COOKIE_PATH = None then None
             else Some PERSISTENT_COOKIE_PATH) \<and>
          files s' PERSISTENT_COOKIE_PATH =
            (if files s PERSISTENT_COOKIE_PATH = None then None
             else (case cookie_rewrite (extract_info e opts v) of
                     None \<Rightarrow> files s PERSISTENT_COOKIE_PATH
                   | Some b' \<Rightarrow> Some b'))
      | Some b \<Rightarrow>
          cookiefile opts = Some (TmpFile (fresh s)) \<and>
          files s' PERSISTENT_COOKIE_PATH =
            (if is_error r then files s PERSISTENT_COOKIE_PATH
             else (case copy_result e of
                     Copy_ok \<Rightarrow>
                       Some (case cookie_rewrite (extract_info e opts v) of
                               None \<Rightarrow> b | Some b' \<Rightarrow> b')
                   | Copy_raised_untouched \<Rightarrow> files s PERSISTENT_COOKIE_PATH
                   | Copy_raised_partial c \<Rightarrow> Some c)) \<and>
          files s' (TmpFile (fresh s)) =
            (if unlink_fails e
             then Some (case cookie_rewrite (extract_info e opts v) of
                          None \<Rightarrow> b | Some b' \<Rightarrow> b')
             else None)) \<and>
     fst (handle_download W (e\<lparr>copy_result := x\<rparr>) a req s) = r"
proof
  assume hc: "handle_download W e a req s = (r, s') \<and> calls s' = (opts, v) # calls s"
  then have h: "handle_download W e a req s = (r, s')"
    and cl: "calls s' = (opts, v) # calls s" by simp_all
  have 3: "fst (handle_download W (e\<lparr>copy_result := x\<rparr>) a req s) = r"
    using handle_download_copy_result[where W=W and e=e and x=x and a=a and req=req and s=s] h
    by simp
  from prepare_url_cases[of W "url_field req"]
  have 12: "(case uploaded_cookies req of
        None \<Rightarrow>
          cookiefile opts =
            (if files s PERSISTENT_COOKIE_PATH = None then None
             else Some PERSISTENT_COOKIE_PATH) \<and>
          files s' PERSISTENT_COOKIE_PATH =
            (if files s PERSISTENT_COOKIE_PATH = None then None
             else (case cookie_rewrite (extract_info e opts v) of
                     None \<Rightarrow> files s PERSISTENT_COOKIE_PATH
                   | Some b' \<Rightarrow> Some b'))
      | Some b \<Rightarrow>
          cookiefile opts = Some (TmpFile (fresh s)) \<and>
          files s' PERSISTENT_COOKIE_PATH =
            (if is_error r then files s PERSISTENT_COOKIE_PATH
             else (case copy_result e of
                     Copy_ok \<Rightarrow>
                       Some (case cookie_rewrite (extract_info e opts v) of
                               None \<Rightarrow> b | Some b' \<Rightarrow> b')
                   | Copy_raised_untouched \<Rightarrow> files s PERSISTENT_COOKIE_PATH
                   | Copy_raised_partial c \<Rightarrow> Some c)) \<and>
          files s' (TmpFile (fresh s)) =
            (if unlink_fails e
             then Some (case cookie_rewrite (extract_info e opts v) of
                          None \<Rightarrow> b | Some b' \<Rightarrow> b')
             else None))"
  proof
    assume "\<exists>msg. prepare_url W (url_field req) = (None, Some msg) \<and> msg \<noteq> []"
    then obtain msg where m: "prepare_url W (url_field req) = (None, Some msg)" "msg \<noteq> []"
      by blast
    from h handle_download_invalid[OF m, where e=e and a=a and s=s]
    have "s' = s" by simp
    with cl show ?thesis by simp
  next
    assume "\<exists>v. prepare_url W (url_field req) = (Some v, None) \<and> v \<noteq> []"
    then obtain v0 where v0: "prepare_url W (url_field req) = (Some v0, None)" by blast
    have nb: "strip v0 \<noteq> []" using v0 by (rule prepare_url_not_blank)
    obtain up s1 where su: "save_upload req s = (up, s1)" by (cases "save_upload req s")
    let ?c = "if up = None \<and> isfile s1 (Some PERSISTENT_COOKIE_PATH)
              then Some PERSISTENT_COOKIE_PATH else up"
    obtain p i s2 where d: "download W e (Some v0) a ?c s1 = ((p, i), s2)"
      by (metis prod.exhaust)
    have f: "finish e a req up p s2 = (r, s')"
      using handle_download_stages[OF v0 su d] h by simp
    let ?o = "build_opts W (s1\<lparr>fresh := Suc (fresh s1)\<rparr>) (fresh s1) v0 a ?c"
    have "calls s' = calls s2" using finish_calls[of e a req up p s2] f by simp
    also have "\<dots> = (?o, v0) # calls s1" using download_calls[OF nb, of W e a ?c s1] d by simp
    also have "calls s1 = calls s" using su by (rule save_upload_calls)
    finally have o: "opts = ?o" and vv: "v = v0" using cl by simp_all
    note sh = download_shape[OF d]
    have df: "files s2 q =
                (if cookiefile opts = Some q
                 then (case cookie_rewrite (extract_info e opts v) of
                         None \<Rightarrow> files s1 q | Some b \<Rightarrow> Some b)
                 else files s1 q)"
      if "q = PERSISTENT_COOKIE_PATH \<or> (\<exists>n. q = TmpFile n)" for q
      using download_files[OF d nb that o] vv by simp
    show ?thesis
    proof (cases "uploaded_cookies req")
      case None
      with su have up: "up = None" and s1: "s1 = s" by (simp_all add: save_upload_def)
      have ck: "cookiefile opts =
            (if files s PERSISTENT_COOKIE_PATH = None then None
             else Some PERSISTENT_COOKIE_PATH)"
        unfolding o by (simp add: build_opts_cookiefile up s1 isfile_def)
      have "files s' PERSISTENT_COOKIE_PATH = files s2 PERSISTENT_COOKIE_PATH"
        using f finish_no_upload[where e=e and a=a and req=req and p=p and ?s2.0=s2] up
        by simp
      also have "\<dots> =
            (if cookiefile opts = Some PERSISTENT_COOKIE_PATH
             then (case cookie_rewrite (extract_info e opts v) of
                     None \<Rightarrow> files s PERSISTENT_COOKIE_PATH | Some b \<Rightarrow> Some b)
             else files s PERSISTENT_COOKIE_PATH)"
        using df[of PERSISTENT_COOKIE_PATH] unfolding s1 by simp
      finally have fp: "files s' PERSISTENT_COOKIE_PATH =
            (if cookiefile opts = Some PERSISTENT_COOKIE_PATH
             then (case cookie_rewrite (extract_info e opts v) of
                     None \<Rightarrow> files s PERSISTENT_COOKIE_PATH | Some b \<Rightarrow> Some b)
             else files s PERSISTENT_COOKIE_PATH)" .
      show ?thesis
      proof (cases "files s PERSISTENT_COOKIE_PATH")
        case None
        then show ?thesis using \<open>uploaded_cookies req = None\<close> ck fp by simp
      next
        case (Some old)
        then show ?thesis using \<open>uploaded_cookies req = None\<close> ck fp by simp
      qed
    next
      case (Some b)
      with su have up: "up = Some (TmpFile (fresh s))"
        and s1: "s1 = s\<lparr>files := (files s)(TmpFile (fresh s) \<mapsto> b), fresh := Suc (fresh s)\<rparr>"
        by (simp_all add: save_upload_def)
      have ck: "cookiefile opts = Some (TmpFile (fresh s))"
        unfolding o by (simp add: build_opts_cookiefile up s1 isfile_def)
      have t: "files s2 (TmpFile (fresh s)) =
                 Some (case cookie_rewrite (extract_info e opts v) of None \<Rightarrow> b | Some b' \<Rightarrow> b')"
        using df[of "TmpFile (fresh s)"] ck unfolding s1 by (simp split: option.splits)
      have q: "files s2 PERSISTENT_COOKIE_PATH = files s PERSISTENT_COOKIE_PATH"
        using df[of PERSISTENT_COOKIE_PATH] ck unfolding s1 by simp
      from finish_upload[OF t sh, where e=e and a=a and req=req] f up q ck
      show ?thesis using Some by (cases "copy_result e") simp_all
    qed
  qed
  with 3 show "(case uploaded_cookies req of
        None \<Rightarrow>
          cookiefile opts =
            (if files s PERSISTENT_COOKIE_PATH = None then None
             else Some PERSISTENT_COOKIE_PATH) \<and>
          files s' PERSISTENT_COOKIE_PATH =
            (if files s PERSISTENT_COOKIE_PATH = None then None
             else (case cookie_rewrite (extract_info e opts v) of
                     None \<Rightarrow> files s PERSISTENT_COOKIE_PATH
                   | Some b' \<Rightarrow> Some b'))
      | Some b \<Rightarrow>
          cookiefile opts = Some (TmpFile (fresh s)) \<and>
          files s' PERSISTENT_COOKIE_PATH =
            (if is_error r then files s PERSISTENT_COOKIE_PATH
             else (case copy_result e of
                     Copy_ok \<Rightarrow>
                       Some (case cookie_rewrite (extract_info e opts v) of
                               None \<Rightarrow> b | Some b' \<Rightarrow> b')
                   | Copy_raised_untouched \<Rightarrow> files s PERSISTENT_COOKIE_PATH
                   | Copy_raised_partial c \<Rightarrow> Some c)) \<and>
          files s' (TmpFile (fresh s)) =
            (if unlink_fails e
             then Some (case cookie_rewrite (extract_info e opts v) of
                          None \<Rightarrow> b | Some b' \<Rightarrow> b')
             else None)) \<and>
     fst (handle_download W (e\<lparr>copy_result := x\<rparr>) a req s) = r" by blast
qed

theorem cookie_store_update_witness:
  "files (snd (handle_download no_word one_file False upload_request old_cookie_state))
     PERSISTENT_COOKIE_PATH = Some [7, 7] \<and>
   files (snd (handle_download no_word one_file False upload_request old_cookie_state))
     (TmpFile 0) = None \<and>
   files (snd (handle_download no_word failing False upload_request old_cookie_state))
     PERSISTENT_COOKIE_PATH = Some [9] \<and>
   files (snd (handle_download no_word failing False upload_request old_cookie_state))
     (TmpFile 0) = None \<and>
   files (snd (handle_download no_word failing False (post_url shorts_url) old_cookie_state))
     PERSISTENT_COOKIE_PATH = Some [9]"
proof -
  let ?A = "handle_download no_word one_file False upload_request old_cookie_state"
  let ?B = "handle_download no_word failing False upload_request old_cookie_state"
  let ?C = "handle_download no_word failing False (post_url shorts_url) old_cookie_state"
  have "\<exists>opts v. calls (snd ?A) = (opts, v) # calls old_cookie_state"
    by (simp add: eval_defs)
  then obtain oa va where ca: "calls (snd ?A) = (oa, va) # calls old_cookie_state" by blast
  have "\<exists>opts v. calls (snd ?B) = (opts, v) # calls old_cookie_state"
    by (simp add: eval_defs)
  then obtain ob vb where cb: "calls (snd ?B) = (ob, vb) # calls old_cookie_state" by blast
  have "\<exists>opts v. calls (snd ?C) = (opts, v) # calls old_cookie_state"
    by (simp add: eval_defs)
  then obtain oc vc where cc: "calls (snd ?C) = (oc, vc) # calls old_cookie_state" by blast
  have u: "uploaded_cookies upload_request = Some [7, 7]"
    "uploaded_cookies (post_url shorts_url) = None"
    by (simp_all add: eval_defs)
  have r: "\<not> is_error (fst ?A)" "is_error (fst ?B)"
    by (simp_all add: eval_defs)
  have e: "copy_result one_file = Copy_ok" "\<not> unlink_fails one_file"
    "\<not> unlink_fails failing"
    "cookie_rewrite (extract_info one_file oa va) = None"
    "cookie_rewrite (extract_info failing ob vb) = None"
    "cookie_rewrite (extract_info failing oc vc) = None"
    "files old_cookie_state PERSISTENT_COOKIE_PATH = Some [9]" "fresh old_cookie_state = 0"
    by (simp_all add: one_file_def failing_def old_cookie_state_def)
  note a = cookie_store_update[of no_word one_file False upload_request old_cookie_state
      "fst ?A" "snd ?A" oa va Copy_ok]
  note b = cookie_store_update[of no_word failing False upload_request old_cookie_state
      "fst ?B" "snd ?B" ob vb Copy_ok]
  note c = cookie_store_update[of no_word failing False "post_url shorts_url" old_cookie_state
      "fst ?C" "snd ?C" oc vc Copy_ok]
  from a ca u r e have "files (snd ?A) PERSISTENT_COOKIE_PATH = Some [7, 7] \<and>
    files (snd ?A) (TmpFile 0) = None" by simp
  moreover from b cb u r e have "files (snd ?B) PERSISTENT_COOKIE_PATH = Some [9] \<and>
    files (snd ?B) (TmpFile 0) = None" by simp
  moreover from c cc u e have "files (snd ?C) PERSISTENT_COOKIE_PATH = Some [9]" by simp
  ultimately show ?thesis by simp
qed

text \<open>
  The claim as written has the persisted file unchanged whenever no file was uploaded,
  and the temporary copy deleted after every request.  With no upload the library is
  handed the persisted file as its cookie file: here it rewrites it, the extraction
  fails, and the persisted file has changed.  And when \<^verbatim>\<open>os.unlink\<close> raises, the
  temporary copy of the upload is still there after the request.
\<close>

theorem cookie_store_update_counterexample:
  "uploaded_cookies (post_url shorts_url) = None \<and>
   is_error (fst (handle_download no_word rewriting False (post_url shorts_url)
                    old_cookie_state)) \<and>
   files old_cookie_state PERSISTENT_COOKIE_PATH = Some [9] \<and>
   files (snd (handle_download no_word rewriting False (post_url shorts_url) old_cookie_state))
     PERSISTENT_COOKIE_PATH = Some [5] \<and>
   files (snd (handle_download no_word stuck False upload_request old_cookie_state))
     (TmpFile 0) = Some [7, 7]"
  by (simp add: eval_defs)

lemma content_disposition_names:
  "content_disposition (ustr ''audio.mp3'') = ustr ''attachment; filename='' @ [34] @ ustr ''audio.mp3'' @ [34]"
  "content_disposition (ustr ''video.mp4'') = ustr ''attachment; filename='' @ [34] @ ustr ''video.mp4'' @ [34]"
  by (simp_all add: content_disposition_def replace1_def ustr_def)

lemma deliver_result:
  assumes "deliver e a req q s = (r, s')"
  shows "r = Stream q (ustr ''attachment; filename='' @ [34] @
                        (if a then ustr ''audio.mp3'' else ustr ''video.mp4'') @ [34]) (getsize s q) \<or>
         r = Json 200 [(''download_url'', url_root req @ ustr ''download/'' @ token e),
                       (''filename'', if a then ustr ''audio.mp3'' else ustr ''video.mp4'')] \<and>
         pending s' (token e) = Some (q, if a then ustr ''audio.mp3'' else ustr ''video.mp4'')"
proof (cases a)
  case True
  then show ?thesis using assms
    by (auto simp: deliver_def Let_def content_disposition_names split: if_splits)
next
  case False
  then show ?thesis using assms
    by (auto simp: deliver_def Let_def content_disposition_names split: if_splits)
qed

lemma finish_result:
  assumes "finish e a req up p s2 = (r, s')" and "\<not> is_error r"
  shows "\<exists>q s4. deliver e a req q s4 = (r, s')"
  using assms
  by (cases p) (auto simp: finish_def Let_def is_error_failed split: if_splits)

text \<open>
  C9.  Whenever a download request succeeds (its response is not a 400), the response
  is either the stream whose \<^verbatim>\<open>Content-Disposition\<close> is
  \<^verbatim>\<open>attachment; filename="audio.mp3"\<close> for an audio request and
  \<^verbatim>\<open>attachment; filename="video.mp4"\<close> for a video request, or the JSON body whose
  \<^verbatim>\<open>filename\<close> is that name, the same name being stored with the token; the name
  depends on nothing but the kind of request, whatever the metadata and the URL.
\<close>

theorem display_name_fixed:
  "handle_download W e a req s = (r, s') \<and> \<not> is_error r \<longrightarrow>
     (\<exists>p n. r = Stream p (ustr ''attachment; filename='' @ [34] @
                           (if a then ustr ''audio.mp3'' else ustr ''video.mp4'') @ [34]) n) \<or>
     (\<exists>p. r = Json 200 [(''download_url'', url_root req @ ustr ''download/'' @ token e),
                        (''filename'', if a then ustr ''audio.mp3'' else ustr ''video.mp4'')] \<and>
          pending s' (token e) = Some (p, if a then ustr ''audio.mp3'' else ustr ''video.mp4''))"
proof
  assume hr: "handle_download W e a req s = (r, s') \<and> \<not> is_error r"
  then have h: "handle_download W e a req s = (r, s')" and ne: "\<not> is_error r" by simp_all
  from prepare_url_cases[of W "url_field req"]
  have "\<exists>q s4. deliver e a req q s4 = (r, s')"
  proof
    assume "\<exists>msg. prepare_url W (url_field req) = (None, Some msg) \<and> msg \<noteq> []"
    then obtain msg where m: "prepare_url W (url_field req) = (None, Some msg)" "msg \<noteq> []"
      by blast
    from h handle_download_invalid[OF m, where e=e and a=a and s=s]
    have "r = Json 400 [(''error'', msg)]" by simp
    then have "is_error r" by (simp add: is_error_def)
    with ne show ?thesis by simp
  next
    assume "\<exists>v. prepare_url W (url_field req) = (Some v, None) \<and> v \<noteq> []"
    then obtain v where v: "prepare_url W (url_field req) = (Some v, None)" by blast
    obtain up s1 where su: "save_upload req s = (up, s1)" by (cases "save_upload req s")
    let ?c = "if up = None \<and> isfile s1 (Some PERSISTENT_COOKIE_PATH)
              then Some PERSISTENT_COOKIE_PATH else up"
    obtain p i s2 where d: "download W e (Some v) a ?c s1 = ((p, i), s2)"
      by (metis prod.exhaust)
    have f: "finish e a req up p s2 = (r, s')"
      using handle_download_stages[OF v su d] h by simp
    from finish_result[OF f ne] show ?thesis .
  qed
  then obtain q s4 where "deliver e a req q s4 = (r, s')" by blast
  from deliver_result[OF this]
  show "(\<exists>p n. r = Stream p (ustr ''attachment; filename='' @ [34] @
                           (if a then ustr ''audio.mp3'' else ustr ''video.mp4'') @ [34]) n) \<or>
     (\<exists>p. r = Json 200 [(''download_url'', url_root req @ ustr ''download/'' @ token e),
                        (''filename'', if a then ustr ''audio.mp3'' else ustr ''video.mp4'')] \<and>
          pending s' (token e) = Some (p, if a then ustr ''audio.mp3'' else ustr ''video.mp4''))"
    by blast
qed


theorem display_name_fixed_witness:
  "fst (handle_download no_word one_file False upload_request old_cookie_state) =
     Stream (OutFile 1 (ustr ''out.mp4''))
       (ustr ''attachment; filename='' @ [34] @ ustr ''video.mp4'' @ [34]) 3 \<and>
   fst (handle_download no_word one_file True deferred_request empty_state) =
     Json 200 [(''download_url'', ustr ''http://host/download/tok''),
               (''filename'', ustr ''audio.mp3'')] \<and>
   pending (snd (handle_download no_word one_file True deferred_request empty_state))
     (ustr ''tok'') = Some (OutFile 0 (ustr ''out.mp4''), ustr ''audio.mp3'')"
proof -
  note a = display_name_fixed[of no_word one_file False upload_request old_cookie_state
      "fst (handle_download no_word one_file False upload_request old_cookie_state)"
      "snd (handle_download no_word one_file False upload_request old_cookie_state)"]
  have x: "fst (handle_download no_word one_file False upload_request old_cookie_state) =
     Stream (OutFile 1 (ustr ''out.mp4''))
       (ustr ''attachment; filename='' @ [34] @ ustr ''video.mp4'' @ [34]) 3"
    by (simp add: eval_defs)
  have y: "fst (handle_download no_word one_file True deferred_request empty_state) =
     Json 200 [(''download_url'', ustr ''http://host/download/tok''),
               (''filename'', ustr ''audio.mp3'')]"
    by (simp add: eval_defs)
  have z: "pending (snd (handle_download no_word one_file True deferred_request empty_state))
     (ustr ''tok'') = Some (OutFile 0 (ustr ''out.mp4''), ustr ''audio.mp3'')"
    by (simp add: eval_defs)
  from a x y z show ?thesis by simp
qed

section \<open>File names\<close>

lemmas title_defs =
  title_for_filename_def truthy_def py_format_def py_or_def info_truthy_def dict_get_def
  strip_def isspace_def ustr_def dot_ext_def replace1_def illegal_char_def Let_def

lemma strip_id:
  assumes "list_all id_char v"
  shows "strip v = v"
proof -
  have a: "\<And>xs. list_all id_char xs \<Longrightarrow> dropWhile isspace xs = xs"
    by (case_tac xs) (auto dest: id_char_not_space)
  have "list_all id_char (rev v)" using assms by (simp add: list_all_iff)
  then show ?thesis using assms by (simp add: strip_def a)
qed

lemma dot_ext_inject: "dot_ext x ext = dot_ext y ext \<longleftrightarrow> x = y"
  by (simp add: dot_ext_def)

text \<open>
  With an id of eleven code points of the id class as the fallback, the result is some
  stem followed by the extension, and the stem is none of the three placeholders: the
  id itself is none of them, and a stem made from the title is tested against them.
\<close>

lemma title_for_filename_shape:
  assumes "length v = 11" and "list_all id_char v"
  shows "\<exists>x. title_for_filename info ext (Some v) = dot_ext x ext \<and>
             x \<notin> {ustr ''!'', [65281], ustr ''NA''}"
proof -
  have sv: "strip v = v" using assms(2) by (rule strip_id)
  have ne: "v \<noteq> []" using assms(1) by auto
  have nf: "v \<notin> {ustr ''!'', [65281], ustr ''NA''}" using assms(1) by (auto simp: ustr_def)
  have vid: "v \<notin> {ustr ''!'', []}" using assms(1) by (auto simp: ustr_def)
  show ?thesis
    unfolding title_for_filename_def Let_def
    using sv ne nf vid assms(1)
    by (auto simp: truthy_def py_format_def)
qed

text \<open>
  So the derivation keeps clear of the placeholders whenever the URL yields an id, for
  every metadata record and extension.
\<close>

lemma title_for_filename_url_id:
  assumes "video_id_from_url W u = Some v"
  shows "title_for_filename info ext (Some v) \<notin>
           {dot_ext (ustr ''!'') ext, dot_ext [65281] ext, dot_ext (ustr ''NA'') ext}"
proof -
  from assms obtain g1 g2 g3 where
    m: "YT_WATCH_RE_search W (strip u) = Some (g1, g2, g3)"
    and g: "py_or (py_or g1 g2) g3 = Some v"
    by (auto simp: video_id_from_url_def split: if_splits option.splits)
  from watch_search_groups[OF m] g have "length v = 11" "list_all id_char v" by auto
  from title_for_filename_shape[OF this, of info ext] show ?thesis
    by (auto simp: dot_ext_inject)
qed

lemma title_for_filename_example:
  "title_for_filename (Some [(''title'', Some (ustr ''!''))]) (ustr ''mp4'')
     (Some (ustr ''dQw4w9WgXcQ'')) = ustr ''dQw4w9WgXcQ.mp4'' \<and>
   title_for_filename (Some [(''title'', Some (ustr ''!''))]) (ustr ''mp3'')
     (Some (ustr ''dQw4w9WgXcQ'')) = ustr ''dQw4w9WgXcQ.mp3''"
  by (simp add: title_defs)

text \<open>
  C3.  The claim is that the derived name is never \<^verbatim>\<open>!.<ext>\<close>, the same with the
  full-width exclamation mark U+FF01, or \<^verbatim>\<open>NA.<ext>\<close>, and that the only fallbacks are
  the id from the URL and \<^verbatim>\<open>video\<close>.  The function's own comment says the same
  (the id is never taken from the metadata), but when the URL gives no id the code takes
  the metadata's \<^verbatim>\<open>id\<close>, tests it for \<^verbatim>\<open>!\<close> and for fewer than five code points
  only, and strips it afterwards.  With no id from the URL and no title, the metadata
  ids \<^verbatim>\<open>NA\<close> and U+FF01, each followed by spaces up to five code points, give the
  names \<^verbatim>\<open>NA.mp4\<close> and U+FF01 \<^verbatim>\<open>.mp4\<close>, and an ordinary metadata id is used as the
  name where the claim has \<^verbatim>\<open>video.mp4\<close>.
\<close>

theorem title_for_filename_placeholder:
  "title_for_filename (Some [(''id'', Some (ustr ''NA   ''))]) (ustr ''mp4'') None =
     ustr ''NA.mp4'' \<and>
   title_for_filename (Some [(''id'', Some (65281 # ustr ''    ''))]) (ustr ''mp4'') None =
     65281 # ustr ''.mp4'' \<and>
   title_for_filename (Some [(''id'', Some (ustr ''abcdefgh''))]) (ustr ''mp4'') None =
     ustr ''abcdefgh.mp4''"
  by (simp add: title_defs)

theorem title_for_filename_placeholder_witness:
  "title_for_filename (Some [(''id'', Some (ustr ''NA   ''))]) (ustr ''mp4'') None =
     dot_ext (ustr ''NA'') (ustr ''mp4'')"
  using title_for_filename_placeholder by (simp add: dot_ext_def ustr_def)

end
